theory Spec2Isabelle
  imports Complex_Main "HOL-Library.Code_Target_Nat"
begin

section \<open>Numbers\<close>

text \<open>
  The component \<^verbatim>\<open>src/components/LxvInteractivePreview.tsx\<close> computes with JavaScript
  numbers. A number is modelled as \<open>NaN\<close>, one of the two infinities, or a finite value.
  Finite values are reals: the comparisons, \<^verbatim>\<open>Math.max\<close> and \<^verbatim>\<open>Math.min\<close> below are exact on
  doubles, and every arithmetic operation whose result would be rounded is a parameter of
  the solver's model (see \<open>Inverse kinematics\<close>), never computed here. The two zeros are
  one value.
\<close>

datatype number = NaN | NegInfinity | Finite real | PosInfinity

text \<open>The relation \<^verbatim>\<open>a <= b\<close>: false as soon as one side is \<open>NaN\<close>.\<close>

fun num_le :: "number \<Rightarrow> number \<Rightarrow> bool" where
  "num_le NaN _ = False"
| "num_le _ NaN = False"
| "num_le NegInfinity _ = True"
| "num_le (Finite a) (Finite b) = (a \<le> b)"
| "num_le (Finite a) PosInfinity = True"
| "num_le (Finite a) NegInfinity = False"
| "num_le PosInfinity PosInfinity = True"
| "num_le PosInfinity _ = False"

text \<open>The relation \<^verbatim>\<open>a < b\<close>; \<^verbatim>\<open>a > b\<close> is \<open>num_lt b a\<close>.\<close>

definition num_lt :: "number \<Rightarrow> number \<Rightarrow> bool" where
  "num_lt a b = (num_le a b \<and> \<not> num_le b a)"

text \<open>Unary minus and \<^verbatim>\<open>Math.abs\<close> only touch the sign, so they are exact.\<close>

fun num_neg :: "number \<Rightarrow> number" where
  "num_neg NaN = NaN"
| "num_neg NegInfinity = PosInfinity"
| "num_neg (Finite a) = Finite (- a)"
| "num_neg PosInfinity = NegInfinity"

fun Math_abs :: "number \<Rightarrow> number" where
  "Math_abs NaN = NaN"
| "Math_abs NegInfinity = PosInfinity"
| "Math_abs (Finite a) = Finite \<bar>a\<bar>"
| "Math_abs PosInfinity = PosInfinity"

definition Number_isNaN :: "number \<Rightarrow> bool" where
  "Number_isNaN a = (a = NaN)"

fun Number_isFinite :: "number \<Rightarrow> bool" where
  "Number_isFinite (Finite _) = True"
| "Number_isFinite _ = False"

text \<open>\<^verbatim>\<open>Math.max\<close> and \<^verbatim>\<open>Math.min\<close> of two arguments: \<open>NaN\<close> as soon as one of them is.\<close>

definition Math_max :: "number \<Rightarrow> number \<Rightarrow> number" where
  "Math_max a b = (if a = NaN \<or> b = NaN then NaN else if num_le a b then b else a)"

definition Math_min :: "number \<Rightarrow> number \<Rightarrow> number" where
  "Math_min a b = (if a = NaN \<or> b = NaN then NaN else if num_le a b then a else b)"

type_synonym vec3 = "number \<times> number \<times> number"

section \<open>Strings\<close>

text \<open>
  A JavaScript string is a sequence of UTF-16 code units, numbers below \<open>65536\<close>. The texts
  that the code itself writes are ASCII; \<open>utf16\<close> gives the code units of such a text.
\<close>

type_synonym code_unit = nat

type_synonym jsstring = "code_unit list"

definition utf16 :: "string \<Rightarrow> jsstring" where
  "utf16 s = map of_char s"

section \<open>Joint control nodes\<close>

text \<open>
  \<^verbatim>\<open>type JointControl = { name; type: "revolute" | "continuous"; axis; motionGroup;
  lowerLimit: number | null; upperLimit: number | null; angle: number }\<close>.

  The field \<open>motionGroup\<close> stands for the quaternion of the joint's motion node, which the
  code writes with \<^verbatim>\<open>quaternion.setFromAxisAngle(axis, angle)\<close> only: it is kept as the pair of
  arguments of the last such call. A control chain is a list of nodes: the code's array holds
  references to objects, taken here to be distinct (one per joint of a path, the joints of a
  path having distinct names).
\<close>

datatype joint_type = Revolute | Continuous

record joint_control =
  name :: jsstring
  jtype :: joint_type
  axis :: vec3
  motionGroup :: "vec3 \<times> number"
  lowerLimit :: "number option"
  upperLimit :: "number option"
  angle :: number

definition clampJointAngle :: "joint_control \<Rightarrow> number \<Rightarrow> number" where
  "clampJointAngle joint a =
     (if jtype joint = Continuous then a
      else
        let clampedAngle = a;
            clampedAngle = (case lowerLimit joint of
                              Some lo \<Rightarrow> Math_max clampedAngle lo
                            | None \<Rightarrow> clampedAngle);
            clampedAngle = (case upperLimit joint of
                              Some hi \<Rightarrow> Math_min clampedAngle hi
                            | None \<Rightarrow> clampedAngle)
        in clampedAngle)"

definition setJointAngle :: "joint_control \<Rightarrow> number \<Rightarrow> joint_control" where
  "setJointAngle joint a =
     (let clampedAngle = clampJointAngle joint a
      in joint\<lparr>angle := clampedAngle, motionGroup := (axis joint, clampedAngle)\<rparr>)"

definition snapshotJointAngles :: "joint_control list \<Rightarrow> number list" where
  "snapshotJointAngles controlChain = map angle controlChain"

text \<open>
  \<^verbatim>\<open>restoreJointAngles\<close> walks the chain by index; \<^verbatim>\<open>jointAngles[index]\<close> is \<^verbatim>\<open>undefined\<close>
  exactly when the index is past the end of the array, and such a joint is left alone.
\<close>

fun restoreJointAngles :: "joint_control list \<Rightarrow> number list \<Rightarrow> joint_control list" where
  "restoreJointAngles [] jointAngles = []"
| "restoreJointAngles (joint # rest) [] = joint # restoreJointAngles rest []"
| "restoreJointAngles (joint # rest) (a # as) = setJointAngle joint a # restoreJointAngles rest as"

text \<open>A run of assignments to one joint, in order.\<close>

definition assignAll :: "joint_control \<Rightarrow> number list \<Rightarrow> joint_control" where
  "assignAll joint as = foldl setJointAngle joint as"

text \<open>
  Arbitrary mutation of a chain through \<^verbatim>\<open>setJointAngle\<close>: a list of calls, each naming the
  index of the joint it assigns and the angle. An index outside the chain would be a
  \<^verbatim>\<open>TypeError\<close> in the code; such a call is no mutation and is passed over.
\<close>

fun mutateChain :: "joint_control list \<Rightarrow> (nat \<times> number) list \<Rightarrow> joint_control list" where
  "mutateChain controlChain [] = controlChain"
| "mutateChain controlChain ((i, a) # calls) =
     mutateChain
       (if i < length controlChain then controlChain[i := setJointAngle (controlChain ! i) a]
        else controlChain)
       calls"

text \<open>The stored angle respects the bounds that are present.\<close>

definition withinLimits :: "joint_control \<Rightarrow> bool" where
  "withinLimits joint =
     ((case lowerLimit joint of None \<Rightarrow> True | Some lo \<Rightarrow> num_le lo (angle joint)) \<and>
      (case upperLimit joint of None \<Rightarrow> True | Some hi \<Rightarrow> num_le (angle joint) hi))"

text \<open>The bounds that are present are numbers, and ordered when both are present.\<close>

definition orderedLimits :: "joint_control \<Rightarrow> bool" where
  "orderedLimits joint =
     (lowerLimit joint \<noteq> Some NaN \<and> upperLimit joint \<noteq> Some NaN \<and>
      (case (lowerLimit joint, upperLimit joint) of
         (Some lo, Some hi) \<Rightarrow> num_le lo hi
       | _ \<Rightarrow> True))"

text \<open>Clamping leaves the stored angle as it is.\<close>

definition angleSettled :: "joint_control \<Rightarrow> bool" where
  "angleSettled joint = (clampJointAngle joint (angle joint) = angle joint)"

text \<open>Two nodes agree on everything that clamping reads.\<close>

definition sameLimits :: "joint_control \<Rightarrow> joint_control \<Rightarrow> bool" where
  "sameLimits j j' =
     (jtype j' = jtype j \<and> lowerLimit j' = lowerLimit j \<and> upperLimit j' = upperLimit j)"

section \<open>Robot description documents\<close>

text \<open>
  \<^verbatim>\<open>parseUrdf\<close> reads the document that \<^verbatim>\<open>DOMParser.parseFromString\<close> returns. The browser's
  XML parser is outside the component; the model starts from its result, the tree of
  elements. Text nodes are never read by the code and are left out. Tag and attribute names
  carry no namespace prefix, and a string is the list of its code units.
\<close>

datatype element = Element (tagName: jsstring) (attributes: "(jsstring \<times> jsstring) list")
  (childElements: "element list")

text \<open>All elements below an element, in document order.\<close>

fun descendants :: "element \<Rightarrow> element list" where
  "descendants (Element t as cs) = concat (map (\<lambda>c. c # descendants c) cs)"

definition getAttribute :: "element \<Rightarrow> jsstring \<Rightarrow> jsstring option" where
  "getAttribute e n = map_of (attributes e) n"

definition getElementsByTagName :: "element \<Rightarrow> jsstring \<Rightarrow> element list" where
  "getElementsByTagName e t = filter (\<lambda>d. tagName d = t) (descendants e)"

text \<open>\<^verbatim>\<open>querySelector\<close> is only called with a tag name: the first such element below.\<close>

definition querySelector :: "element \<Rightarrow> jsstring \<Rightarrow> element option" where
  "querySelector e t = find (\<lambda>d. tagName d = t) (descendants e)"

text \<open>On the document itself the search includes the document element.\<close>

definition document_querySelector :: "element \<Rightarrow> jsstring \<Rightarrow> element option" where
  "document_querySelector documentElement t =
     find (\<lambda>d. tagName d = t) (documentElement # descendants documentElement)"

text \<open>\<^verbatim>\<open>element?.getAttribute(n) ?? null\<close>.\<close>

definition attributeOf :: "element option \<Rightarrow> jsstring \<Rightarrow> jsstring option" where
  "attributeOf e n = (case e of None \<Rightarrow> None | Some el \<Rightarrow> getAttribute el n)"

text \<open>\<^verbatim>\<open>!raw\<close> for a string that may be \<^verbatim>\<open>null\<close>: absent or empty.\<close>

definition falsy :: "jsstring option \<Rightarrow> bool" where
  "falsy raw = (raw = None \<or> raw = Some [])"

subsection \<open>White space\<close>

text \<open>
  \<^verbatim>\<open>trim()\<close> and the class \<^verbatim>\<open>\s\<close> of a regular expression take the same characters for white
  space: the white space and the line terminators of the language, which are tab, line feed,
  vertical tab, form feed, carriage return, space, no-break space, the byte order mark, the
  line and paragraph separators and the space separators of Unicode. Each is one code unit.
\<close>

definition isWhiteSpace :: "code_unit \<Rightarrow> bool" where
  "isWhiteSpace c =
     (c \<in> {0x0009, 0x000A, 0x000B, 0x000C, 0x000D, 0x0020, 0x00A0, 0x1680, 0x2028, 0x2029,
            0x202F, 0x205F, 0x3000, 0xFEFF} \<or>
      (0x2000 \<le> c \<and> c \<le> 0x200A))"

definition trim :: "jsstring \<Rightarrow> jsstring" where
  "trim s = rev (dropWhile isWhiteSpace (rev (dropWhile isWhiteSpace s)))"

text \<open>
  \<^verbatim>\<open>s.split(/\s+/)\<close>: the pieces between maximal runs of white space. \<open>cur\<close> is the piece being
  read, reversed; \<open>inRun\<close> tells that the previous character was white space. A string with no
  white space, the empty one included, is one piece.
\<close>

fun splitRuns :: "bool \<Rightarrow> jsstring \<Rightarrow> jsstring \<Rightarrow> jsstring list" where
  "splitRuns inRun cur [] = [rev cur]"
| "splitRuns inRun cur (c # cs) =
     (if isWhiteSpace c then
        (if inRun then splitRuns True cur cs else rev cur # splitRuns True [] cs)
      else splitRuns False (c # cur) cs)"

definition splitWhiteSpace :: "jsstring \<Rightarrow> jsstring list" where
  "splitWhiteSpace s = splitRuns False [] s"

subsection \<open>Attribute values\<close>

text \<open>
  \<^verbatim>\<open>Number(text)\<close>, the conversion of a string to a number, belongs to the language and is
  the parameter \<open>toNumber\<close> of everything that parses.
\<close>

definition parseVector :: "(jsstring \<Rightarrow> number) \<Rightarrow> jsstring option \<Rightarrow> vec3 \<Rightarrow> vec3" where
  "parseVector toNumber raw fallback =
     (case raw of
        None \<Rightarrow> fallback
      | Some text \<Rightarrow>
          if text = [] then fallback
          else
            let parts = map toNumber (splitWhiteSpace (trim text))
            in if length parts \<noteq> 3 \<or> list_ex Number_isNaN parts then fallback
               else (parts ! 0, parts ! 1, parts ! 2))"

definition parseOptionalFloat :: "(jsstring \<Rightarrow> number) \<Rightarrow> jsstring option \<Rightarrow> number option" where
  "parseOptionalFloat toNumber raw =
     (case raw of
        None \<Rightarrow> None
      | Some text \<Rightarrow> let v = toNumber text in if Number_isFinite v then Some v else None)"

text \<open>A \<^verbatim>\<open>THREE.Euler\<close> in the fixed order XYZ is kept as its three angles.\<close>

record urdf_origin =
  position :: vec3
  rotation :: vec3

record urdf_visual =
  meshFilename :: jsstring
  meshScale :: vec3
  visual_origin :: urdf_origin

record urdf_link =
  visuals :: "urdf_visual list"

record urdf_joint =
  urdf_name :: jsstring
  urdf_type :: jsstring
  parent :: jsstring
  child :: jsstring
  urdf_axis :: vec3
  origin :: urdf_origin
  urdf_lowerLimit :: "number option"
  urdf_upperLimit :: "number option"

text \<open>
  A \<^verbatim>\<open>Map\<close> keeps its keys in the order of their first insertion, and \<^verbatim>\<open>links.keys()\<close> is read
  in that order: a map is a list of pairs with distinct keys.
\<close>

fun Map_set :: "('k \<times> 'v) list \<Rightarrow> 'k \<Rightarrow> 'v \<Rightarrow> ('k \<times> 'v) list" where
  "Map_set [] k v = [(k, v)]"
| "Map_set ((k', v') # rest) k v = (if k' = k then (k, v) # rest else (k', v') # Map_set rest k v)"

definition Map_get :: "('k \<times> 'v) list \<Rightarrow> 'k \<Rightarrow> 'v option" where
  "Map_get m k = map_of m k"

definition Map_keys :: "('k \<times> 'v) list \<Rightarrow> 'k list" where
  "Map_keys m = map fst m"

record parsed_urdf =
  rootLink :: jsstring
  links :: "(jsstring \<times> urdf_link) list"
  jointsByParent :: "(jsstring \<times> urdf_joint list) list"

datatype parse_error = UnableToParse | NoRobotElement | NoRootLink

definition parseOrigin :: "(jsstring \<Rightarrow> number) \<Rightarrow> element option \<Rightarrow> urdf_origin" where
  "parseOrigin toNumber originElement =
     \<lparr>position = parseVector toNumber (attributeOf originElement (utf16 ''xyz''))
                   (Finite 0, Finite 0, Finite 0),
      rotation = parseVector toNumber (attributeOf originElement (utf16 ''rpy''))
                   (Finite 0, Finite 0, Finite 0)\<rparr>"

subsection \<open>Links\<close>

text \<open>One \<^verbatim>\<open>visual\<close> element of a link; \<open>None\<close> is the \<^verbatim>\<open>continue\<close> of the loop.\<close>

definition parseVisual :: "(jsstring \<Rightarrow> number) \<Rightarrow> element \<Rightarrow> urdf_visual option" where
  "parseVisual toNumber visualElement =
     (let geometryElement = querySelector visualElement (utf16 ''geometry'');
          meshElement = (case geometryElement of None \<Rightarrow> None | Some g \<Rightarrow> querySelector g (utf16 ''mesh''));
          filename = attributeOf meshElement (utf16 ''filename'')
      in if falsy filename then None
         else Some \<lparr>meshFilename = the filename,
                    meshScale = parseVector toNumber (attributeOf meshElement (utf16 ''scale''))
                                  (Finite 1, Finite 1, Finite 1),
                    visual_origin = parseOrigin toNumber (querySelector visualElement (utf16 ''origin''))\<rparr>)"

definition linkStep ::
  "(jsstring \<Rightarrow> number) \<Rightarrow> (jsstring \<times> urdf_link) list \<Rightarrow> element \<Rightarrow> (jsstring \<times> urdf_link) list" where
  "linkStep toNumber linkMap linkElement =
     (let linkName = getAttribute linkElement (utf16 ''name'')
      in if falsy linkName then linkMap
         else Map_set linkMap (the linkName)
                \<lparr>visuals = List.map_filter (parseVisual toNumber)
                             (getElementsByTagName linkElement (utf16 ''visual''))\<rparr>)"

definition parseLinks :: "(jsstring \<Rightarrow> number) \<Rightarrow> element \<Rightarrow> (jsstring \<times> urdf_link) list" where
  "parseLinks toNumber robotElement =
     foldl (linkStep toNumber) [] (getElementsByTagName robotElement (utf16 ''link''))"

subsection \<open>Joints\<close>

text \<open>
  The body of the loop over the \<^verbatim>\<open>joint\<close> elements, up to the joint it builds; \<open>None\<close> is its
  \<^verbatim>\<open>continue\<close>. Nothing in the body throws.
\<close>

definition parseJoint :: "(jsstring \<Rightarrow> number) \<Rightarrow> element \<Rightarrow> urdf_joint option" where
  "parseJoint toNumber jointElement =
     (let jointName = getAttribute jointElement (utf16 ''name'');
          jointType = (case getAttribute jointElement (utf16 ''type'') of None \<Rightarrow> (utf16 ''fixed'') | Some t \<Rightarrow> t);
          parentLink = attributeOf (querySelector jointElement (utf16 ''parent'')) (utf16 ''link'');
          childLink = attributeOf (querySelector jointElement (utf16 ''child'')) (utf16 ''link'')
      in if falsy jointName \<or> falsy parentLink \<or> falsy childLink then None
         else
           let limitElement = querySelector jointElement (utf16 ''limit'')
           in Some \<lparr>urdf_name = the jointName, urdf_type = jointType,
                     parent = the parentLink, child = the childLink,
                     urdf_axis = parseVector toNumber
                                   (attributeOf (querySelector jointElement (utf16 ''axis'')) (utf16 ''xyz''))
                                   (Finite 0, Finite 0, Finite 1),
                     origin = parseOrigin toNumber (querySelector jointElement (utf16 ''origin'')),
                     urdf_lowerLimit = parseOptionalFloat toNumber (attributeOf limitElement (utf16 ''lower'')),
                     urdf_upperLimit = parseOptionalFloat toNumber (attributeOf limitElement (utf16 ''upper''))\<rparr>)"

text \<open>The rest of the body: the joint is appended under its parent, its child recorded.\<close>

definition jointStep ::
  "(jsstring \<Rightarrow> number) \<Rightarrow> (jsstring \<times> urdf_joint list) list \<times> jsstring set \<Rightarrow> element
     \<Rightarrow> (jsstring \<times> urdf_joint list) list \<times> jsstring set" where
  "jointStep toNumber state jointElement =
     (case parseJoint toNumber jointElement of
        None \<Rightarrow> state
      | Some joint \<Rightarrow>
          (let jointMap = fst state; childLinks = snd state;
               joints = (case Map_get jointMap (parent joint) of None \<Rightarrow> [] | Some js \<Rightarrow> js)
           in (Map_set jointMap (parent joint) (joints @ [joint]),
               insert (child joint) childLinks)))"

definition parseJoints ::
  "(jsstring \<Rightarrow> number) \<Rightarrow> element list \<Rightarrow> (jsstring \<times> urdf_joint list) list \<times> jsstring set" where
  "parseJoints toNumber jointElements = foldl (jointStep toNumber) ([], {}) jointElements"

definition parseUrdf :: "(jsstring \<Rightarrow> number) \<Rightarrow> element \<Rightarrow> parse_error + parsed_urdf" where
  "parseUrdf toNumber xml =
     (if document_querySelector xml (utf16 ''parsererror'') \<noteq> None then Inl UnableToParse
      else case document_querySelector xml (utf16 ''robot'') of
        None \<Rightarrow> Inl NoRobotElement
      | Some robotElement \<Rightarrow>
          let linkMap = parseLinks toNumber robotElement;
              parsed = parseJoints toNumber (getElementsByTagName robotElement (utf16 ''joint''));
              jointMap = fst parsed;
              childLinks = snd parsed
          in case find (\<lambda>linkName. linkName \<notin> childLinks) (Map_keys linkMap) of
               None \<Rightarrow> Inl NoRootLink
             | Some found \<Rightarrow>
                 if found = [] then Inl NoRootLink
                 else Inr \<lparr>rootLink = found, links = linkMap, jointsByParent = jointMap\<rparr>)"

text \<open>Every joint of a joints-by-parent map.\<close>

definition allJoints :: "(jsstring \<times> urdf_joint list) list \<Rightarrow> urdf_joint list" where
  "allJoints jointMap = concat (map snd jointMap)"

text \<open>
  The link names the parser has declared, in the order of \<^verbatim>\<open>links.keys()\<close>, and the joints it
  has kept, for the document's \<^verbatim>\<open>robot\<close> element.
\<close>

definition declaredLinks :: "(jsstring \<Rightarrow> number) \<Rightarrow> element \<Rightarrow> jsstring list" where
  "declaredLinks toNumber robotElement = Map_keys (parseLinks toNumber robotElement)"

definition parsedJoints :: "(jsstring \<Rightarrow> number) \<Rightarrow> element \<Rightarrow> urdf_joint list" where
  "parsedJoints toNumber robotElement =
     allJoints (fst (parseJoints toNumber (getElementsByTagName robotElement (utf16 ''joint''))))"

text \<open>The joint element lacks a name, a parent link or a child link.\<close>

definition lacksRequired :: "element \<Rightarrow> bool" where
  "lacksRequired jointElement =
     (falsy (getAttribute jointElement (utf16 ''name'')) \<or>
      falsy (attributeOf (querySelector jointElement (utf16 ''parent'')) (utf16 ''link'')) \<or>
      falsy (attributeOf (querySelector jointElement (utf16 ''child'')) (utf16 ''link'')))"

text \<open>
  The components of a vector attribute are its maximal runs of characters that are not white
  space. The attribute is well formed when it has three components and each of them converts
  to a number.
\<close>

fun components :: "jsstring \<Rightarrow> jsstring \<Rightarrow> jsstring list" where
  "components cur [] = (if cur = [] then [] else [rev cur])"
| "components cur (c # cs) =
     (if isWhiteSpace c then (if cur = [] then components [] cs else rev cur # components [] cs)
      else components (c # cur) cs)"

definition wellFormedVector :: "(jsstring \<Rightarrow> number) \<Rightarrow> jsstring \<Rightarrow> bool" where
  "wellFormedVector toNumber text =
     (length (components [] text) = 3 \<and> (\<forall>c \<in> set (components [] text). toNumber c \<noteq> NaN))"

text \<open>A vector attribute is absent or malformed; a limit attribute is absent or not finite.\<close>

definition malformedOrAbsent :: "(jsstring \<Rightarrow> number) \<Rightarrow> jsstring option \<Rightarrow> bool" where
  "malformedOrAbsent toNumber raw =
     (case raw of None \<Rightarrow> True | Some text \<Rightarrow> \<not> wellFormedVector toNumber text)"

definition absentOrNonFinite :: "(jsstring \<Rightarrow> number) \<Rightarrow> jsstring option \<Rightarrow> bool" where
  "absentOrNonFinite toNumber raw =
     (case raw of None \<Rightarrow> True | Some text \<Rightarrow> \<not> Number_isFinite (toNumber text))"

section \<open>Chain resolver\<close>

definition childJointsOf :: "parsed_urdf \<Rightarrow> jsstring \<Rightarrow> urdf_joint list" where
  "childJointsOf urdf currentLink =
     (case Map_get (jointsByParent urdf) currentLink of None \<Rightarrow> [] | Some js \<Rightarrow> js)"

text \<open>
  \<^verbatim>\<open>findJointPathToLink\<close> recurses inside its loop over the child joints. The search is one
  function of the place it is at: \<open>Inl currentLink\<close> is the entry of the function,
  \<open>Inr joints\<close> the loop with these child joints still to try. The result \<open>Some None\<close> is
  \<^verbatim>\<open>null\<close>, \<open>Some (Some path)\<close> a path (an array, also an empty one, is truthy), and \<open>None\<close>
  is a search that never returns, as on a cycle of joints, where the code's recursion goes on
  until the stack is exhausted.
\<close>

partial_function (option) findPath ::
  "parsed_urdf \<Rightarrow> jsstring + urdf_joint list \<Rightarrow> jsstring \<Rightarrow> urdf_joint list option option" where
  "findPath urdf place targetLink =
     (case place of
        Inl currentLink \<Rightarrow>
          if currentLink = targetLink then Some (Some [])
          else findPath urdf (Inr (childJointsOf urdf currentLink)) targetLink
      | Inr [] \<Rightarrow> Some None
      | Inr (joint # rest) \<Rightarrow>
          Option.bind (findPath urdf (Inl (child joint)) targetLink)
            (\<lambda>pathFromChild.
               case pathFromChild of
                 Some path \<Rightarrow> Some (Some (joint # path))
               | None \<Rightarrow> findPath urdf (Inr rest) targetLink))"

definition findJointPathToLink ::
  "parsed_urdf \<Rightarrow> jsstring \<Rightarrow> jsstring \<Rightarrow> urdf_joint list option option" where
  "findJointPathToLink urdf currentLink targetLink = findPath urdf (Inl currentLink) targetLink"

text \<open>A list of joints leads from a link to a link, each joint a child joint of the link reached.\<close>

fun isJointPath :: "parsed_urdf \<Rightarrow> jsstring \<Rightarrow> urdf_joint list \<Rightarrow> jsstring \<Rightarrow> bool" where
  "isJointPath urdf currentLink [] targetLink = (currentLink = targetLink)"
| "isJointPath urdf currentLink (joint # path) targetLink =
     (joint \<in> set (childJointsOf urdf currentLink) \<and> isJointPath urdf (child joint) path targetLink)"

definition reaches :: "parsed_urdf \<Rightarrow> jsstring \<Rightarrow> jsstring \<Rightarrow> bool" where
  "reaches urdf currentLink targetLink = (\<exists>path. isJointPath urdf currentLink path targetLink)"

text \<open>
  The joints form no cycle: some depth of the links decreases along every joint. Every tree
  has one (the height of the subtree below a link).
\<close>

definition acyclicBy :: "parsed_urdf \<Rightarrow> (jsstring \<Rightarrow> nat) \<Rightarrow> bool" where
  "acyclicBy urdf depth =
     (\<forall>linkName. \<forall>joint \<in> set (childJointsOf urdf linkName). depth (child joint) < depth linkName)"

text \<open>
  The search from a link returns, with no path exactly when the target cannot be reached,
  and otherwise with a path that leads to the target.
\<close>

definition searchCorrect :: "parsed_urdf \<Rightarrow> jsstring \<Rightarrow> jsstring \<Rightarrow> bool" where
  "searchCorrect urdf l t =
     (\<exists>r. findPath urdf (Inl l) t = Some r \<and> (r = None \<longleftrightarrow> \<not> reaches urdf l t) \<and>
          (\<forall>p. r = Some p \<longrightarrow> isJointPath urdf l p t))"

section \<open>Inverse kinematics\<close>

text \<open>
  A quaternion is its four numbers \<open>(x, y, z, w)\<close>, a pose a position and a quaternion.

  The solver computes with doubles and calls the three.js library. Neither is code of the
  component, and the results of rounded arithmetic are not reals: all of it is the record
  \<open>runtime\<close>, a parameter of the solver. \<open>worldPoseOf\<close> is the forward kinematics of the loaded
  robot: the world position and quaternion of the end effector once the world matrices are
  refreshed, a function of the motion quaternions of the chain (the rest of the scene graph
  does not change during a solve). Numeric literals stand for the doubles nearest to them.
\<close>

type_synonym quat = "number \<times> number \<times> number \<times> number"

type_synonym pose = "vec3 \<times> quat"

record runtime =
  n_add :: "number \<Rightarrow> number \<Rightarrow> number"
  n_sub :: "number \<Rightarrow> number \<Rightarrow> number"
  n_mul :: "number \<Rightarrow> number \<Rightarrow> number"
  n_div :: "number \<Rightarrow> number \<Rightarrow> number"
  Math_hypot :: "number \<Rightarrow> number \<Rightarrow> number \<Rightarrow> number"
  Math_atan2 :: "number \<Rightarrow> number \<Rightarrow> number"
  MathUtils_clamp :: "number \<Rightarrow> number \<Rightarrow> number \<Rightarrow> number"
  MathUtils_degToRad :: "number \<Rightarrow> number"
  Vector3_sub :: "vec3 \<Rightarrow> vec3 \<Rightarrow> vec3"
  Vector3_length :: "vec3 \<Rightarrow> number"
  Vector3_multiplyScalar :: "vec3 \<Rightarrow> number \<Rightarrow> vec3"
  Vector3_lerp :: "vec3 \<Rightarrow> vec3 \<Rightarrow> number \<Rightarrow> vec3"
  Quaternion_invert :: "quat \<Rightarrow> quat"
  Quaternion_multiply :: "quat \<Rightarrow> quat \<Rightarrow> quat"
  Quaternion_normalize :: "quat \<Rightarrow> quat"
  Quaternion_slerp :: "quat \<Rightarrow> quat \<Rightarrow> number \<Rightarrow> quat"
  worldPoseOf :: "(vec3 \<times> number) list \<Rightarrow> pose"

text \<open>
  The mutable state of a loaded robot: the joints of its control chain, and how many times
  \<^verbatim>\<open>robot.updateMatrixWorld(true)\<close> has run, which makes the forward-kinematics updates of a
  call visible.
\<close>

record robot_state =
  controlChain :: "joint_control list"
  matrixWorldUpdates :: nat

definition IK_MAX_ITERATIONS :: nat where
  "IK_MAX_ITERATIONS = 32"

definition IK_JACOBIAN_EPSILON :: number where
  "IK_JACOBIAN_EPSILON = Finite (1 / 10000)"

definition IK_POSITION_TOLERANCE :: number where
  "IK_POSITION_TOLERANCE = Finite (12 / 10000)"

definition IK_ROTATION_TOLERANCE :: "runtime \<Rightarrow> number" where
  "IK_ROTATION_TOLERANCE R = MathUtils_degToRad R (Finite (3 / 2))"

definition IK_ROTATION_WEIGHT :: number where
  "IK_ROTATION_WEIGHT = Finite (3 / 10)"

definition IK_GAIN :: number where
  "IK_GAIN = Finite (22 / 100)"

definition IK_MAX_JOINT_DELTA :: "runtime \<Rightarrow> number" where
  "IK_MAX_JOINT_DELTA R = MathUtils_degToRad R (Finite 5)"

definition updateMatrixWorld :: "robot_state \<Rightarrow> robot_state" where
  "updateMatrixWorld st = st\<lparr>matrixWorldUpdates := Suc (matrixWorldUpdates st)\<rparr>"

definition getWorldPose :: "runtime \<Rightarrow> robot_state \<Rightarrow> pose" where
  "getWorldPose R st =
     (let p = worldPoseOf R (map motionGroup (controlChain st))
      in (fst p, Quaternion_normalize R (snd p)))"

definition quaternionToRotationVector :: "runtime \<Rightarrow> quat \<Rightarrow> vec3" where
  "quaternionToRotationVector R quaternion =
     (case Quaternion_normalize R quaternion of (x, y, z, w) \<Rightarrow>
        (case (if num_lt w (Finite 0)
               then (n_mul R x (Finite (- 1)), n_mul R y (Finite (- 1)),
                     n_mul R z (Finite (- 1)), n_mul R w (Finite (- 1)))
               else (x, y, z, w)) of (nx, ny, nz, nw) \<Rightarrow>
           (let vectorNorm = Math_hypot R nx ny nz
            in if num_lt vectorNorm (Finite (1 / 10 ^ 9))
               then Vector3_multiplyScalar R (nx, ny, nz) (Finite 2)
               else
                 (let a = n_mul R (Finite 2) (Math_atan2 R vectorNorm nw);
                      scale = n_div R a vectorNorm
                  in (n_mul R nx scale, n_mul R ny scale, n_mul R nz scale)))))"

definition orientationError :: "runtime \<Rightarrow> quat \<Rightarrow> quat \<Rightarrow> vec3" where
  "orientationError R currentQuaternion targetQuaternion =
     quaternionToRotationVector R
       (Quaternion_normalize R
          (Quaternion_multiply R (Quaternion_invert R currentQuaternion) targetQuaternion))"

text \<open>\<^verbatim>\<open>setJointAngle(controlChain[jointIndex], a)\<close> on the chain of the state.\<close>

definition setChainAngle :: "robot_state \<Rightarrow> nat \<Rightarrow> number \<Rightarrow> robot_state" where
  "setChainAngle st jointIndex a =
     st\<lparr>controlChain :=
          (controlChain st)[jointIndex := setJointAngle (controlChain st ! jointIndex) a]\<rparr>"

text \<open>The six components: a position part and a rotation part scaled by the rotation weight.\<close>

definition weightedVector :: "runtime \<Rightarrow> vec3 \<Rightarrow> vec3 \<Rightarrow> number list" where
  "weightedVector R p r =
     (case p of (px, py, pz) \<Rightarrow> case r of (rx, ry, rz) \<Rightarrow>
        [px, py, pz,
         n_mul R rx IK_ROTATION_WEIGHT, n_mul R ry IK_ROTATION_WEIGHT,
         n_mul R rz IK_ROTATION_WEIGHT])"

text \<open>
  The body of the first inner loop, for one \<open>jointIndex\<close>: perturb the joint, read the pose,
  add the column's product with the weighted error to the joint's delta, put the angle back.
\<close>

definition jacobianStep ::
  "runtime \<Rightarrow> pose \<Rightarrow> number list \<Rightarrow> robot_state \<times> number list \<Rightarrow> nat
     \<Rightarrow> robot_state \<times> number list" where
  "jacobianStep R currentPose weightedError acc jointIndex =
     (let st = fst acc; jointDeltas = snd acc;
          originalAngle = angle (controlChain st ! jointIndex);
          st = setChainAngle st jointIndex (n_add R originalAngle IK_JACOBIAN_EPSILON);
          st = updateMatrixWorld st;
          perturbedPose = getWorldPose R st;
          positionColumn =
            Vector3_multiplyScalar R (Vector3_sub R (fst perturbedPose) (fst currentPose))
              (n_div R (Finite 1) IK_JACOBIAN_EPSILON);
          rotationColumn =
            Vector3_multiplyScalar R (orientationError R (snd currentPose) (snd perturbedPose))
              (n_div R (Finite 1) IK_JACOBIAN_EPSILON);
          jacobianColumn = weightedVector R positionColumn rotationColumn;
          jointDeltas =
            foldl (\<lambda>ds row. ds[jointIndex :=
                     n_add R (ds ! jointIndex) (n_mul R (jacobianColumn ! row) (weightedError ! row))])
              jointDeltas [0 ..< length weightedError];
          st = setChainAngle st jointIndex originalAngle
      in (st, jointDeltas))"

text \<open>The body of the second inner loop: apply the clamped delta, note whether the joint moved.\<close>

definition updateStep ::
  "runtime \<Rightarrow> number list \<Rightarrow> robot_state \<times> bool \<Rightarrow> nat \<Rightarrow> robot_state \<times> bool" where
  "updateStep R jointDeltas acc jointIndex =
     (let st = fst acc; movedAnyJoint = snd acc;
          delta = MathUtils_clamp R (n_mul R (jointDeltas ! jointIndex) IK_GAIN)
                    (num_neg (IK_MAX_JOINT_DELTA R)) (IK_MAX_JOINT_DELTA R);
          previousAngle = angle (controlChain st ! jointIndex);
          st = setChainAngle st jointIndex (n_add R previousAngle delta)
      in (st,
          if num_lt (Finite (1 / 10 ^ 8))
               (Math_abs (n_sub R (angle (controlChain st ! jointIndex)) previousAngle))
          then True else movedAnyJoint))"

text \<open>
  How one iteration of the main loop ends: with \<^verbatim>\<open>return true\<close>, with \<^verbatim>\<open>break\<close>, or by going on
  to the next iteration; each with the state it leaves.
\<close>

datatype iteration_exit =
  ReturnTrue (exitState: robot_state)
| Break (exitState: robot_state)
| Continue (exitState: robot_state)

definition ikIteration :: "runtime \<Rightarrow> vec3 \<Rightarrow> quat \<Rightarrow> robot_state \<Rightarrow> iteration_exit" where
  "ikIteration R targetPosition targetQuaternion st0 =
     (let st = updateMatrixWorld st0;
          currentPose = getWorldPose R st;
          positionError = Vector3_sub R targetPosition (fst currentPose);
          rotationError = orientationError R (snd currentPose) targetQuaternion
      in if num_le (Vector3_length R positionError) IK_POSITION_TOLERANCE \<and>
            num_le (Vector3_length R rotationError) (IK_ROTATION_TOLERANCE R)
         then ReturnTrue st
         else
           (let weightedError = weightedVector R positionError rotationError;
                n = length (controlChain st);
                jac = foldl (jacobianStep R currentPose weightedError)
                        (st, replicate n (Finite 0)) [0 ..< n];
                upd = foldl (updateStep R (snd jac)) (fst jac, False) [0 ..< n]
            in if \<not> snd upd then Break (fst upd) else Continue (fst upd)))"

text \<open>The check after the loop.\<close>

definition finalCheck :: "runtime \<Rightarrow> vec3 \<Rightarrow> quat \<Rightarrow> robot_state \<Rightarrow> robot_state \<times> bool" where
  "finalCheck R targetPosition targetQuaternion st0 =
     (let st = updateMatrixWorld st0;
          finalPose = getWorldPose R st;
          finalPositionError = Vector3_length R (Vector3_sub R targetPosition (fst finalPose));
          finalRotationError =
            Vector3_length R (orientationError R (snd finalPose) targetQuaternion)
      in (st, num_le finalPositionError (n_mul R IK_POSITION_TOLERANCE (Finite 2)) \<and>
              num_le finalRotationError (n_mul R (IK_ROTATION_TOLERANCE R) (Finite 2))))"

text \<open>The main loop from the iteration it is at, then the check after it.\<close>

function ikLoop :: "runtime \<Rightarrow> vec3 \<Rightarrow> quat \<Rightarrow> nat \<Rightarrow> robot_state \<Rightarrow> robot_state \<times> bool" where
  "ikLoop R targetPosition targetQuaternion iteration st =
     (if iteration < IK_MAX_ITERATIONS then
        (case ikIteration R targetPosition targetQuaternion st of
           ReturnTrue st' \<Rightarrow> (st', True)
         | Break st' \<Rightarrow> finalCheck R targetPosition targetQuaternion st'
         | Continue st' \<Rightarrow> ikLoop R targetPosition targetQuaternion (iteration + 1) st')
      else finalCheck R targetPosition targetQuaternion st)"
  by pat_completeness auto
termination
  by (relation "measure (\<lambda>(R, tp, tq, iteration, st). IK_MAX_ITERATIONS - iteration)") auto

definition solveIkStep :: "runtime \<Rightarrow> robot_state \<Rightarrow> vec3 \<Rightarrow> quat \<Rightarrow> robot_state \<times> bool" where
  "solveIkStep R st targetPosition targetQuaternion =
     (if length (controlChain st) = 0 then (st, False)
      else ikLoop R targetPosition targetQuaternion 0 st)"

definition restoreChain :: "robot_state \<Rightarrow> number list \<Rightarrow> robot_state" where
  "restoreChain st jointAngles =
     st\<lparr>controlChain := restoreJointAngles (controlChain st) jointAngles\<rparr>"

text \<open>The loop over the retry scales, and what follows it.\<close>

fun retryLoop ::
  "runtime \<Rightarrow> pose \<Rightarrow> number list \<Rightarrow> vec3 \<Rightarrow> quat \<Rightarrow> robot_state \<Rightarrow> number list
     \<Rightarrow> robot_state \<times> bool" where
  "retryLoop R startPose startAngles targetPosition targetQuaternion st [] =
     (updateMatrixWorld (restoreChain st startAngles), False)"
| "retryLoop R startPose startAngles targetPosition targetQuaternion st (scale # scales) =
     (let st1 = updateMatrixWorld (restoreChain st startAngles);
          blendedTargetPosition = Vector3_lerp R (fst startPose) targetPosition scale;
          blendedTargetQuaternion =
            Quaternion_normalize R (Quaternion_slerp R (snd startPose) targetQuaternion scale);
          attempt = solveIkStep R st1 blendedTargetPosition blendedTargetQuaternion
      in if snd attempt then (fst attempt, True)
         else retryLoop R startPose startAngles targetPosition targetQuaternion (fst attempt) scales)"

definition solveIkToTargetWithRetries ::
  "runtime \<Rightarrow> robot_state \<Rightarrow> vec3 \<Rightarrow> quat \<Rightarrow> number list \<Rightarrow> robot_state \<times> bool" where
  "solveIkToTargetWithRetries R st0 targetPosition targetQuaternion retryScales =
     (let st = updateMatrixWorld st0;
          startPose = getWorldPose R st;
          startAngles = snapshotJointAngles (controlChain st)
      in retryLoop R startPose startAngles targetPosition targetQuaternion st retryScales)"

subsection \<open>The solver in the words of its description\<close>

text \<open>
  What follows is written from the description of the solver, on the chain of joints alone,
  and uses none of the loops above. The end-effector pose is the world pose the runtime gives
  for the joint angles of the chain, its quaternion normalised.
\<close>

definition endEffectorPose :: "runtime \<Rightarrow> joint_control list \<Rightarrow> pose" where
  "endEffectorPose R chain =
     (fst (worldPoseOf R (map motionGroup chain)),
      Quaternion_normalize R (snd (worldPoseOf R (map motionGroup chain))))"

text \<open>
  The orientation error is the rotation vector of the rotation that takes the current
  orientation to the target one: the normalised product of the inverse of the first with the
  second, its scalar part made non-negative, the vector part scaled to the rotation angle
  (twice the vector part for an angle too small to divide by).
\<close>

definition relativeRotation :: "runtime \<Rightarrow> quat \<Rightarrow> quat \<Rightarrow> quat" where
  "relativeRotation R fromQ toQ =
     Quaternion_normalize R (Quaternion_multiply R (Quaternion_invert R fromQ) toQ)"

fun nonNegativeScalar :: "runtime \<Rightarrow> quat \<Rightarrow> quat" where
  "nonNegativeScalar R (x, y, z, w) =
     (if num_lt w (Finite 0)
      then (n_mul R x (Finite (- 1)), n_mul R y (Finite (- 1)), n_mul R z (Finite (- 1)),
            n_mul R w (Finite (- 1)))
      else (x, y, z, w))"

fun halfAngleVector :: "runtime \<Rightarrow> quat \<Rightarrow> vec3" where
  "halfAngleVector R (x, y, z, w) =
     (if num_lt (Math_hypot R x y z) (Finite (1 / 10 ^ 9))
      then Vector3_multiplyScalar R (x, y, z) (Finite 2)
      else (n_mul R x (n_div R (n_mul R (Finite 2) (Math_atan2 R (Math_hypot R x y z) w))
                         (Math_hypot R x y z)),
            n_mul R y (n_div R (n_mul R (Finite 2) (Math_atan2 R (Math_hypot R x y z) w))
                         (Math_hypot R x y z)),
            n_mul R z (n_div R (n_mul R (Finite 2) (Math_atan2 R (Math_hypot R x y z) w))
                         (Math_hypot R x y z))))"

definition rotationVector :: "runtime \<Rightarrow> quat \<Rightarrow> vec3" where
  "rotationVector R q = halfAngleVector R (nonNegativeScalar R (Quaternion_normalize R q))"







text \<open>
  The weighted error vector: the three components of the position error, then the three of
  the orientation error scaled by the rotation weight.
\<close>

definition sixComponents :: "runtime \<Rightarrow> vec3 \<Rightarrow> vec3 \<Rightarrow> number list" where
  "sixComponents R p r =
     [fst p, fst (snd p), snd (snd p),
      n_mul R (fst r) IK_ROTATION_WEIGHT, n_mul R (fst (snd r)) IK_ROTATION_WEIGHT,
      n_mul R (snd (snd r)) IK_ROTATION_WEIGHT]"


text \<open>
  The Jacobian column of joint \<open>i\<close> is estimated by a finite difference: the joint is moved by
  a small angle, the change of the pose is divided by that angle, and the joint is put back
  at the angle it had. Putting it back goes through the clamp-to-limits rule, so while the
  column of joint \<open>i\<close> is estimated the joints before it have been put back that way.
\<close>

definition angleRestored :: "joint_control \<Rightarrow> joint_control" where
  "angleRestored joint = setJointAngle joint (angle joint)"

definition chainWhileEstimating :: "joint_control list \<Rightarrow> nat \<Rightarrow> joint_control list" where
  "chainWhileEstimating chain i = map angleRestored (take i chain) @ drop i chain"

definition perturbedChain :: "runtime \<Rightarrow> joint_control list \<Rightarrow> nat \<Rightarrow> joint_control list" where
  "perturbedChain R chain i =
     (chainWhileEstimating chain i)
       [i := setJointAngle (chain ! i) (n_add R (angle (chain ! i)) IK_JACOBIAN_EPSILON)]"

definition jacobianColumn :: "runtime \<Rightarrow> joint_control list \<Rightarrow> nat \<Rightarrow> number list" where
  "jacobianColumn R chain i =
     sixComponents R
       (Vector3_multiplyScalar R
          (Vector3_sub R (fst (endEffectorPose R (perturbedChain R chain i)))
             (fst (endEffectorPose R chain)))
          (n_div R (Finite 1) IK_JACOBIAN_EPSILON))
       (Vector3_multiplyScalar R
          (rotationVector R
             (relativeRotation R (snd (endEffectorPose R chain))
                (snd (endEffectorPose R (perturbedChain R chain i)))))
          (n_div R (Finite 1) IK_JACOBIAN_EPSILON))"












text \<open>Two states whose chains agree, joint by joint, on everything that clamping reads.\<close>

definition chainRel :: "robot_state \<Rightarrow> robot_state \<Rightarrow> bool" where
  "chainRel st st' = list_all2 sameLimits (controlChain st) (controlChain st')"

section \<open>Example inputs\<close>

text \<open>A joint whose limits are the wrong way round, and one whose angle is outside its limits.\<close>

definition invertedJoint :: joint_control where
  "invertedJoint =
     \<lparr>name = (utf16 ''elbow''), jtype = Revolute, axis = (Finite 0, Finite 0, Finite 1),
      motionGroup = ((Finite 0, Finite 0, Finite 1), Finite 0),
      lowerLimit = Some (Finite 5), upperLimit = Some (Finite 1), angle = Finite 0\<rparr>"

definition unsettledJoint :: joint_control where
  "unsettledJoint =
     \<lparr>name = (utf16 ''elbow''), jtype = Revolute, axis = (Finite 0, Finite 0, Finite 1),
      motionGroup = ((Finite 0, Finite 0, Finite 1), Finite 0),
      lowerLimit = Some (Finite 1), upperLimit = Some (Finite 2), angle = Finite 0\<rparr>"

text \<open>
  A runtime to compute with: exact arithmetic on finite numbers, the sum of the absolute
  components as the length of a vector, and a robot whose end effector slides along the
  x axis by the sum of its joint angles and never turns.
\<close>

fun exact2 :: "(real \<Rightarrow> real \<Rightarrow> real) \<Rightarrow> number \<Rightarrow> number \<Rightarrow> number" where
  "exact2 f (Finite a) (Finite b) = Finite (f a b)"
| "exact2 f _ _ = NaN"

definition manhattan :: "vec3 \<Rightarrow> number" where
  "manhattan v = (case v of (x, y, z) \<Rightarrow>
     exact2 (+) (Math_abs x) (exact2 (+) (Math_abs y) (Math_abs z)))"

definition railPose :: "(vec3 \<times> number) list \<Rightarrow> pose" where
  "railPose motions =
     ((foldl (exact2 (+)) (Finite 0) (map snd motions), Finite 0, Finite 0),
      (Finite 0, Finite 0, Finite 0, Finite 1))"

definition railRuntime :: runtime where
  "railRuntime =
     \<lparr>n_add = exact2 (+), n_sub = exact2 (-), n_mul = exact2 (*), n_div = exact2 (/),
      Math_hypot = (\<lambda>x y z. manhattan (x, y, z)),
      Math_atan2 = (\<lambda>y x. y),
      MathUtils_clamp = (\<lambda>v lo hi. Math_max lo (Math_min hi v)),
      MathUtils_degToRad = (\<lambda>d. exact2 (*) d (Finite (1 / 50))),
      Vector3_sub = (\<lambda>(a, b, c) (x, y, z). (exact2 (-) a x, exact2 (-) b y, exact2 (-) c z)),
      Vector3_length = manhattan,
      Vector3_multiplyScalar = (\<lambda>(x, y, z) s. (exact2 (*) x s, exact2 (*) y s, exact2 (*) z s)),
      Vector3_lerp = (\<lambda>(a, b, c) (x, y, z) t.
         (exact2 (+) a (exact2 (*) (exact2 (-) x a) t),
          exact2 (+) b (exact2 (*) (exact2 (-) y b) t),
          exact2 (+) c (exact2 (*) (exact2 (-) z c) t))),
      Quaternion_invert = (\<lambda>q. q),
      Quaternion_multiply = (\<lambda>p q. (Finite 0, Finite 0, Finite 0, Finite 1)),
      Quaternion_normalize = (\<lambda>q. q),
      Quaternion_slerp = (\<lambda>p q t. q),
      worldPoseOf = railPose\<rparr>"

definition unitQuaternion :: quat where
  "unitQuaternion = (Finite 0, Finite 0, Finite 0, Finite 1)"

text \<open>A joint at the lower end of its limits, and the two robots of one joint.\<close>

definition settledJoint :: joint_control where
  "settledJoint =
     \<lparr>name = (utf16 ''elbow''), jtype = Revolute, axis = (Finite 0, Finite 0, Finite 1),
      motionGroup = ((Finite 0, Finite 0, Finite 1), Finite 0),
      lowerLimit = Some (Finite 0), upperLimit = Some (Finite 1), angle = Finite 0\<rparr>"

definition settledRobot :: robot_state where
  "settledRobot = \<lparr>controlChain = [settledJoint], matrixWorldUpdates = 0\<rparr>"

definition unsettledRobot :: robot_state where
  "unsettledRobot = \<lparr>controlChain = [unsettledJoint], matrixWorldUpdates = 0\<rparr>"

text \<open>
  A conversion of the few numerals the example document uses, and the document: three links
  and three joint elements, one of which has no name. The axis of the first joint separates
  its components by a no-break space and by an em space and a tab.
\<close>

definition someNumber :: "jsstring \<Rightarrow> number" where
  "someNumber text =
     (if text = (utf16 ''0'') then Finite 0 else if text = (utf16 ''1'') then Finite 1
      else if text = (utf16 ''2'') then Finite 2 else if text = (utf16 ''Infinity'') then PosInfinity
      else NaN)"

definition linkElement :: "jsstring \<Rightarrow> element" where
  "linkElement n = Element (utf16 ''link'') [((utf16 ''name''), n)] []"

definition linkRef :: "jsstring \<Rightarrow> jsstring \<Rightarrow> element" where
  "linkRef t n = Element t [((utf16 ''link''), n)] []"

definition firstJoint :: element where
  "firstJoint =
     Element (utf16 ''joint'') [((utf16 ''name''), (utf16 ''j1'')), ((utf16 ''type''), (utf16 ''revolute''))]
       [linkRef (utf16 ''parent'') (utf16 ''base''), linkRef (utf16 ''child'') (utf16 ''mid''),
        Element (utf16 ''origin'') [((utf16 ''xyz''), (utf16 ''0  1 2 '')), ((utf16 ''rpy''), (utf16 ''0 0 tilt''))] [],
        Element (utf16 ''axis'')
          [((utf16 ''xyz''), utf16 ''0'' @ [0x00A0] @ utf16 ''1'' @ [0x2003, 0x0009] @ utf16 ''0'')] [],
        Element (utf16 ''limit'') [((utf16 ''lower''), (utf16 ''0'')), ((utf16 ''upper''), (utf16 ''2''))] []]"

definition namelessJoint :: element where
  "namelessJoint =
     Element (utf16 ''joint'') [((utf16 ''type''), (utf16 ''revolute''))]
       [linkRef (utf16 ''parent'') (utf16 ''tip''), linkRef (utf16 ''child'') (utf16 ''base'')]"

definition secondJoint :: element where
  "secondJoint =
     Element (utf16 ''joint'') [((utf16 ''name''), (utf16 ''j2'')), ((utf16 ''type''), (utf16 ''revolute''))]
       [linkRef (utf16 ''parent'') (utf16 ''mid''), linkRef (utf16 ''child'') (utf16 ''tip''),
        Element (utf16 ''axis'') [((utf16 ''xyz''), (utf16 ''0 1''))] [],
        Element (utf16 ''limit'') [((utf16 ''lower''), (utf16 ''Infinity''))] []]"

definition demoRobot :: element where
  "demoRobot =
     Element (utf16 ''robot'') [((utf16 ''name''), (utf16 ''demo''))]
       [linkElement (utf16 ''base''), linkElement (utf16 ''mid''), linkElement (utf16 ''tip''),
        firstJoint, namelessJoint, secondJoint]"

text \<open>A tree with a side branch, and a depth of its links.\<close>

definition plainJoint :: "jsstring \<Rightarrow> jsstring \<Rightarrow> jsstring \<Rightarrow> urdf_joint" where
  "plainJoint n p c =
     \<lparr>urdf_name = n, urdf_type = (utf16 ''revolute''), parent = p, child = c,
      urdf_axis = (Finite 0, Finite 0, Finite 1),
      origin = \<lparr>position = (Finite 0, Finite 0, Finite 0), rotation = (Finite 0, Finite 0, Finite 0)\<rparr>,
      urdf_lowerLimit = None, urdf_upperLimit = None\<rparr>"

definition demoTree :: parsed_urdf where
  "demoTree =
     \<lparr>rootLink = (utf16 ''base''),
      links = [((utf16 ''base''), \<lparr>visuals = []\<rparr>), ((utf16 ''side''), \<lparr>visuals = []\<rparr>),
               ((utf16 ''mid''), \<lparr>visuals = []\<rparr>), ((utf16 ''tip''), \<lparr>visuals = []\<rparr>)],
      jointsByParent =
        [((utf16 ''base''), [plainJoint (utf16 ''j0'') (utf16 ''base'') (utf16 ''side''), plainJoint (utf16 ''j1'') (utf16 ''base'') (utf16 ''mid'')]),
         ((utf16 ''mid''), [plainJoint (utf16 ''j2'') (utf16 ''mid'') (utf16 ''tip'')])]\<rparr>"

definition demoDepth :: "jsstring \<Rightarrow> nat" where
  "demoDepth l = (if l = (utf16 ''base'') then 2 else if l = (utf16 ''mid'') then 1 else 0)"

text \<open>
  A document whose joints run into a cycle below the root, the structure it parses to, and
  the places of the search that lie on the cycle.
\<close>

definition loopRobot :: element where
  "loopRobot =
     Element (utf16 ''robot'') [((utf16 ''name''), (utf16 ''loop''))]
       [linkElement (utf16 ''base''), linkElement (utf16 ''left''), linkElement (utf16 ''right''),
        Element (utf16 ''joint'') [((utf16 ''name''), (utf16 ''j0'')), ((utf16 ''type''), (utf16 ''revolute''))]
          [linkRef (utf16 ''parent'') (utf16 ''base''), linkRef (utf16 ''child'') (utf16 ''left'')],
        Element (utf16 ''joint'') [((utf16 ''name''), (utf16 ''j1'')), ((utf16 ''type''), (utf16 ''revolute''))]
          [linkRef (utf16 ''parent'') (utf16 ''left''), linkRef (utf16 ''child'') (utf16 ''right'')],
        Element (utf16 ''joint'') [((utf16 ''name''), (utf16 ''j2'')), ((utf16 ''type''), (utf16 ''revolute''))]
          [linkRef (utf16 ''parent'') (utf16 ''right''), linkRef (utf16 ''child'') (utf16 ''left'')]]"

definition loopTree :: parsed_urdf where
  "loopTree =
     \<lparr>rootLink = (utf16 ''base''),
      links = [((utf16 ''base''), \<lparr>visuals = []\<rparr>), ((utf16 ''left''), \<lparr>visuals = []\<rparr>),
               ((utf16 ''right''), \<lparr>visuals = []\<rparr>)],
      jointsByParent =
        [((utf16 ''base''), [plainJoint (utf16 ''j0'') (utf16 ''base'') (utf16 ''left'')]),
         ((utf16 ''left''), [plainJoint (utf16 ''j1'') (utf16 ''left'') (utf16 ''right'')]),
         ((utf16 ''right''), [plainJoint (utf16 ''j2'') (utf16 ''right'') (utf16 ''left'')])]\<rparr>"


definition onLoop :: "jsstring + urdf_joint list \<Rightarrow> bool" where
  "onLoop place =
     (place = Inl (utf16 ''left'') \<or> place = Inl (utf16 ''right'') \<or>
      place = Inr [plainJoint (utf16 ''j1'') (utf16 ''left'') (utf16 ''right'')] \<or>
      place = Inr [plainJoint (utf16 ''j2'') (utf16 ''right'') (utf16 ''left'')])"

section \<open>Properties of strings\<close>

lemma utf16_eq_iff [simp]: "utf16 a = utf16 b \<longleftrightarrow> a = b"
  by (simp add: utf16_def inj_map_eq_map inj_on_def)

lemma utf16_empty_iff [simp]: "utf16 a = [] \<longleftrightarrow> a = []"
  by (simp add: utf16_def)

section \<open>Properties of clamping\<close>

lemma Math_max_idem: "Math_max (Math_max a b) b = Math_max a b"
  by (cases a; cases b) (simp_all add: Math_max_def)

lemma Math_min_idem: "Math_min (Math_min a b) b = Math_min a b"
  by (cases a; cases b) (simp_all add: Math_min_def)

lemma clamp_twice_both:
  "Math_min (Math_max (Math_min (Math_max a lo) hi) lo) hi = Math_min (Math_max a lo) hi"
  by (cases a; cases lo; cases hi) (auto simp: Math_max_def Math_min_def)

lemma clampJointAngle_idem:
  "clampJointAngle joint (clampJointAngle joint a) = clampJointAngle joint a"
  by (cases "lowerLimit joint"; cases "upperLimit joint")
     (simp_all add: clampJointAngle_def Math_max_idem Math_min_idem clamp_twice_both)

text \<open>
  \<^bold>\<open>C9.\<close> Joint-angle clamping is idempotent: for every joint control node and every angle
  (finite, infinite or \<open>NaN\<close>), clamping the clamped angle returns the clamped angle.
\<close>

theorem clampJointAngle_idempotent:
  "clampJointAngle joint (clampJointAngle joint a) = clampJointAngle joint a"
  by (rule clampJointAngle_idem)

lemma sameLimits_refl: "sameLimits j j"
  by (simp add: sameLimits_def)

lemma sameLimits_trans: "sameLimits a b \<Longrightarrow> sameLimits b c \<Longrightarrow> sameLimits a c"
  by (simp add: sameLimits_def)

lemma sameLimits_set: "sameLimits j (setJointAngle j a)"
  by (simp add: sameLimits_def setJointAngle_def Let_def)

lemma sameLimits_clamp: "sameLimits j j' \<Longrightarrow> clampJointAngle j' a = clampJointAngle j a"
  by (simp add: sameLimits_def clampJointAngle_def)

lemma angle_setJointAngle: "angle (setJointAngle j a) = clampJointAngle j a"
  by (simp add: setJointAngle_def Let_def)

lemma assignAll_snoc: "assignAll j (as @ [a]) = setJointAngle (assignAll j as) a"
  by (simp add: assignAll_def)

lemma sameLimits_assignAll: "sameLimits j (assignAll j as)"
proof (induction as rule: rev_induct)
  case Nil
  show ?case by (simp add: assignAll_def sameLimits_refl)
next
  case (snoc a as)
  show ?case
    unfolding assignAll_snoc
    by (rule sameLimits_trans [OF snoc sameLimits_set])
qed

lemma clamp_within:
  assumes "jtype j = Revolute" "orderedLimits j" "Number_isFinite a"
  shows "withinLimits (setJointAngle j a)"
proof -
  obtain r where a: "a = Finite r" using assms(3) by (cases a) simp_all
  show ?thesis
  proof (cases "lowerLimit j")
    case None
    then show ?thesis using assms(1,2) a
      by (cases "upperLimit j"; cases "the (upperLimit j)")
         (auto simp: withinLimits_def setJointAngle_def Let_def clampJointAngle_def orderedLimits_def
            Math_min_def)
  next
    case (Some lo)
    then show ?thesis using assms(1,2) a
      by (cases "upperLimit j"; cases "the (upperLimit j)"; cases lo)
         (auto simp: withinLimits_def setJointAngle_def Let_def clampJointAngle_def orderedLimits_def
            Math_min_def Math_max_def)
  qed
qed

lemma orderedLimits_cong: "sameLimits j j' \<Longrightarrow> orderedLimits j' = orderedLimits j"
  by (simp add: sameLimits_def orderedLimits_def)

text \<open>
  \<^bold>\<open>C2.\<close> For a joint that is not continuous and whose present limits are numbers, ordered
  when both are present, after any non-empty run of assignments of finite angles through
  \<^verbatim>\<open>setJointAngle\<close> the stored angle respects the bounds that are present. For a continuous
  joint the angle last assigned is stored unchanged. (With limits the wrong way round the
  stored angle is the upper limit, below the lower one.)
\<close>

theorem setJointAngle_sequence_within_limits:
  "(jtype joint = Revolute \<and> orderedLimits joint \<and> as \<noteq> [] \<and> (\<forall>a \<in> set as. Number_isFinite a)
      \<longrightarrow> withinLimits (assignAll joint as)) \<and>
   (jtype joint = Continuous \<and> as \<noteq> [] \<longrightarrow> angle (assignAll joint as) = last as)"
proof (intro conjI impI)
  assume h: "jtype joint = Revolute \<and> orderedLimits joint \<and> as \<noteq> [] \<and> (\<forall>a \<in> set as. Number_isFinite a)"
  then obtain bs b where as: "as = bs @ [b]" by (cases as rule: rev_cases) auto
  let ?j = "assignAll joint bs"
  have s: "sameLimits joint ?j" by (rule sameLimits_assignAll)
  have "jtype ?j = Revolute" using s h by (simp add: sameLimits_def)
  moreover have "orderedLimits ?j" using orderedLimits_cong [OF s] h by simp
  moreover have "Number_isFinite b" using h as by simp
  ultimately show "withinLimits (assignAll joint as)"
    unfolding as assignAll_snoc by (rule clamp_within)
next
  assume h: "jtype joint = Continuous \<and> as \<noteq> []"
  then obtain bs b where as: "as = bs @ [b]" by (cases as rule: rev_cases) auto
  have "jtype (assignAll joint bs) = Continuous"
    using sameLimits_assignAll [of joint bs] h by (simp add: sameLimits_def)
  then show "angle (assignAll joint as) = last as"
    unfolding as assignAll_snoc by (simp add: setJointAngle_def Let_def clampJointAngle_def)
qed

theorem setJointAngle_sequence_counterexample:
  "jtype invertedJoint \<noteq> Continuous \<and> lowerLimit invertedJoint = Some (Finite 5) \<and>
   upperLimit invertedJoint = Some (Finite 1) \<and> Number_isFinite (Finite 0) \<and>
   angle (assignAll invertedJoint [Finite 0]) = Finite 1 \<and>
   \<not> withinLimits (assignAll invertedJoint [Finite 0])"
  by (simp add: invertedJoint_def assignAll_def setJointAngle_def Let_def clampJointAngle_def
      Math_max_def Math_min_def withinLimits_def)

theorem setJointAngle_sequence_witness:
  "withinLimits (assignAll unsettledJoint [Finite 7, Finite 0]) \<and>
   angle (assignAll unsettledJoint [Finite 7, Finite 0]) = Finite 1 \<and>
   angle (assignAll (unsettledJoint\<lparr>jtype := Continuous\<rparr>) [Finite 7, Finite 9]) = Finite 9"
proof -
  have fin: "\<forall>a \<in> set [Finite 7, Finite 0]. Number_isFinite a" by simp
  have ord: "orderedLimits unsettledJoint" by (simp add: orderedLimits_def unsettledJoint_def)
  have rev: "jtype unsettledJoint = Revolute" by (simp add: unsettledJoint_def)
  have "withinLimits (assignAll unsettledJoint [Finite 7, Finite 0])"
    using setJointAngle_sequence_within_limits [of unsettledJoint "[Finite 7, Finite 0]"] fin ord rev
    by simp
  moreover have "angle (assignAll unsettledJoint [Finite 7, Finite 0]) = Finite 1"
    by (simp add: unsettledJoint_def assignAll_def setJointAngle_def Let_def clampJointAngle_def
      Math_max_def Math_min_def)
  moreover have "angle (assignAll (unsettledJoint\<lparr>jtype := Continuous\<rparr>) [Finite 7, Finite 9]) = Finite 9"
    using setJointAngle_sequence_within_limits [of "unsettledJoint\<lparr>jtype := Continuous\<rparr>" "[Finite 7, Finite 9]"]
    by simp
  ultimately show ?thesis by simp
qed

lemma mutateChain_sameLimits: "list_all2 sameLimits chain (mutateChain chain calls)"
proof (induction calls arbitrary: chain)
  case Nil
  show ?case by (simp add: list_all2_conv_all_nth sameLimits_refl)
next
  case (Cons c calls)
  obtain i a where c: "c = (i, a)" by (cases c)
  let ?chain = "if i < length chain then chain[i := setJointAngle (chain ! i) a] else chain"
  have "list_all2 sameLimits chain ?chain"
    by (auto simp: list_all2_conv_all_nth nth_list_update sameLimits_refl sameLimits_set)
  moreover have "list_all2 sameLimits ?chain (mutateChain ?chain calls)" by (rule Cons.IH)
  ultimately have "list_all2 sameLimits chain (mutateChain ?chain calls)"
    by (rule list_all2_trans [rotated]) (rule sameLimits_trans)
  then show ?case by (simp add: c)
qed

lemma restore_after_sameLimits:
  "list_all2 sameLimits chain chain' \<Longrightarrow>
   map angle (restoreJointAngles chain' (map angle chain)) = map (\<lambda>j. clampJointAngle j (angle j)) chain"
  by (induction chain chain' rule: list_all2_induct)
     (simp_all add: angle_setJointAngle sameLimits_clamp)

text \<open>
  \<^bold>\<open>C6.\<close> Capturing the angles of a chain, mutating the chain by any calls of \<^verbatim>\<open>setJointAngle\<close>
  and restoring the captured angles leaves every joint at its captured angle clamped to the
  joint's limits; hence exactly at its captured angle when clamping leaves that angle as it
  is, which holds of every angle that \<^verbatim>\<open>setJointAngle\<close> has stored.
\<close>

theorem snapshot_restore_roundtrip:
  "map angle (restoreJointAngles (mutateChain chain calls) (snapshotJointAngles chain))
     = map (\<lambda>joint. clampJointAngle joint (angle joint)) chain \<and>
   ((\<forall>joint \<in> set chain. angleSettled joint) \<longrightarrow>
      map angle (restoreJointAngles (mutateChain chain calls) (snapshotJointAngles chain))
        = snapshotJointAngles chain)"
proof -
  have eq: "map angle (restoreJointAngles (mutateChain chain calls) (snapshotJointAngles chain))
     = map (\<lambda>joint. clampJointAngle joint (angle joint)) chain"
    unfolding snapshotJointAngles_def
    by (rule restore_after_sameLimits [OF mutateChain_sameLimits])
  show ?thesis
    unfolding eq by (simp add: snapshotJointAngles_def angleSettled_def)
qed

theorem snapshot_restore_counterexample:
  "snapshotJointAngles [unsettledJoint] = [Finite 0] \<and>
   map angle (restoreJointAngles (mutateChain [unsettledJoint] [(0, Finite 1.5)])
     (snapshotJointAngles [unsettledJoint])) = [Finite 1]"
  by (simp add: unsettledJoint_def snapshotJointAngles_def setJointAngle_def Let_def clampJointAngle_def
      Math_max_def Math_min_def)

theorem snapshot_restore_witness:
  "angleSettled (setJointAngle unsettledJoint (Finite 7)) \<and>
   snapshotJointAngles [setJointAngle unsettledJoint (Finite 7)] = [Finite 2] \<and>
   map angle (restoreJointAngles (mutateChain [setJointAngle unsettledJoint (Finite 7)] [(0, Finite 1.5)])
     (snapshotJointAngles [setJointAngle unsettledJoint (Finite 7)])) = [Finite 2]"
proof -
  have s: "angleSettled (setJointAngle unsettledJoint (Finite 7))"
    by (simp add: angleSettled_def unsettledJoint_def setJointAngle_def Let_def clampJointAngle_def
      Math_max_def Math_min_def)
  have v: "snapshotJointAngles [setJointAngle unsettledJoint (Finite 7)] = [Finite 2]"
    by (simp add: unsettledJoint_def snapshotJointAngles_def setJointAngle_def Let_def
      clampJointAngle_def Math_max_def Math_min_def)
  have "\<forall>joint \<in> set [setJointAngle unsettledJoint (Finite 7)]. angleSettled joint"
    using s by simp
  then have r: "map angle (restoreJointAngles
       (mutateChain [setJointAngle unsettledJoint (Finite 7)] [(0, Finite 1.5)])
       (snapshotJointAngles [setJointAngle unsettledJoint (Finite 7)]))
     = snapshotJointAngles [setJointAngle unsettledJoint (Finite 7)]"
    using snapshot_restore_roundtrip [of "[setJointAngle unsettledJoint (Finite 7)]" "[(0, Finite 1.5)]"]
    by blast
  show ?thesis
    using s r unfolding v by blast
qed


section \<open>Properties of the parser\<close>

lemma set_Map_keys_Map_set: "set (Map_keys (Map_set m k v)) = insert k (set (Map_keys m))"
  by (induction m k v rule: Map_set.induct) (auto simp: Map_keys_def)

lemma linkStep_keys_nonempty:
  "[] \<notin> set (Map_keys m) \<Longrightarrow> [] \<notin> set (Map_keys (linkStep N m e))"
  by (auto simp: linkStep_def Let_def falsy_def set_Map_keys_Map_set)

lemma foldl_linkStep_keys_nonempty:
  "[] \<notin> set (Map_keys m) \<Longrightarrow> [] \<notin> set (Map_keys (foldl (linkStep N) m es))"
  by (induction es arbitrary: m) (simp_all add: linkStep_keys_nonempty)

lemma declaredLinks_nonempty: "[] \<notin> set (declaredLinks N r)"
  unfolding declaredLinks_def parseLinks_def
  by (rule foldl_linkStep_keys_nonempty) (simp add: Map_keys_def)

lemma set_allJoints_Map_set:
  "set (allJoints (Map_set jm p ((case Map_get jm p of None \<Rightarrow> [] | Some js \<Rightarrow> js) @ [j])))
     = insert j (set (allJoints jm))"
proof (induction jm)
  case Nil
  show ?case by (simp add: allJoints_def Map_get_def)
next
  case (Cons kv jm)
  obtain k v where kv: "kv = (k, v)" by (cases kv)
  show ?case
  proof (cases "k = p")
    case True
    then show ?thesis by (simp add: kv allJoints_def Map_get_def)
  next
    case False
    have "set (allJoints ((k, v) # m)) = set v \<union> set (allJoints m)" for m
      by (simp add: allJoints_def)
    then show ?thesis
      using False Cons.IH by (simp add: kv Map_get_def)
  qed
qed

lemma jointStep_cases:
  "(parseJoint N e = None \<and> jointStep N st e = st) \<or>
   (\<exists>j. parseJoint N e = Some j \<and>
      set (allJoints (fst (jointStep N st e))) = insert j (set (allJoints (fst st))) \<and>
      snd (jointStep N st e) = insert (child j) (snd st))"
  by (cases "parseJoint N e") (simp_all add: jointStep_def Let_def set_allJoints_Map_set)

lemma jointStep_children:
  "snd st = child ` set (allJoints (fst st)) \<Longrightarrow>
   snd (jointStep N st e) = child ` set (allJoints (fst (jointStep N st e)))"
  using jointStep_cases [of N e st] by auto

lemma foldl_jointStep_children:
  "snd st = child ` set (allJoints (fst st)) \<Longrightarrow>
   snd (foldl (jointStep N) st es) = child ` set (allJoints (fst (foldl (jointStep N) st es)))"
  by (induction es arbitrary: st) (simp_all add: jointStep_children)

lemma parseJoints_children:
  "snd (parseJoints N es) = child ` set (allJoints (fst (parseJoints N es)))"
  unfolding parseJoints_def
  by (rule foldl_jointStep_children) (simp add: allJoints_def)

lemma parseJoint_None_iff: "parseJoint N e = None \<longleftrightarrow> lacksRequired e"
  by (simp add: parseJoint_def lacksRequired_def Let_def)

lemma jointStep_skip: "lacksRequired e \<Longrightarrow> jointStep N st e = st"
proof -
  assume "lacksRequired e"
  then have "parseJoint N e = None" by (simp add: parseJoint_None_iff)
  then show ?thesis by (simp add: jointStep_def)
qed

lemma foldl_jointStep_filter:
  "foldl (jointStep N) st es = foldl (jointStep N) st (filter (\<lambda>e. \<not> lacksRequired e) es)"
  by (induction es arbitrary: st) (simp_all add: jointStep_skip)

lemma foldl_jointStep_origin:
  "j \<in> set (allJoints (fst (foldl (jointStep N) st es))) \<Longrightarrow>
   j \<in> set (allJoints (fst st)) \<or> (\<exists>e \<in> set es. parseJoint N e = Some j)"
proof (induction es arbitrary: st)
  case Nil
  then show ?case by simp
next
  case (Cons e es)
  from Cons.IH [of "jointStep N st e"] Cons.prems
  have "j \<in> set (allJoints (fst (jointStep N st e))) \<or> (\<exists>e \<in> set es. parseJoint N e = Some j)"
    by simp
  then show ?case using jointStep_cases [of N e st] by auto
qed

text \<open>
  \<^bold>\<open>C8.\<close> A joint element that lacks a name, a parent link or a child link is skipped: the
  loop's state after it is the state before it (the loop has no failing exit), the joints
  and child links parsed from a list of joint elements are those parsed from the list
  without the incomplete elements, and every joint of the resulting joints-by-parent map was
  built from a complete element.
\<close>

theorem parseUrdf_skips_incomplete_joints:
  "(lacksRequired jointElement \<longrightarrow> jointStep toNumber state jointElement = state) \<and>
   parseJoints toNumber jointElements
     = parseJoints toNumber (filter (\<lambda>e. \<not> lacksRequired e) jointElements) \<and>
   (\<forall>joint \<in> set (allJoints (fst (parseJoints toNumber jointElements))).
      \<exists>e \<in> set jointElements. \<not> lacksRequired e \<and> parseJoint toNumber e = Some joint)"
proof (intro conjI impI ballI)
  assume "lacksRequired jointElement"
  then show "jointStep toNumber state jointElement = state" by (rule jointStep_skip)
next
  show "parseJoints toNumber jointElements
     = parseJoints toNumber (filter (\<lambda>e. \<not> lacksRequired e) jointElements)"
    unfolding parseJoints_def by (rule foldl_jointStep_filter)
next
  fix joint
  assume "joint \<in> set (allJoints (fst (parseJoints toNumber jointElements)))"
  then have "\<exists>e \<in> set jointElements. parseJoint toNumber e = Some joint"
    using foldl_jointStep_origin [of joint toNumber "([], {})" jointElements]
    by (simp add: parseJoints_def allJoints_def)
  then obtain e where "e \<in> set jointElements" "parseJoint toNumber e = Some joint" by blast
  moreover from this have "\<not> lacksRequired e" using parseJoint_None_iff [of toNumber e] by simp
  ultimately show "\<exists>e \<in> set jointElements. \<not> lacksRequired e \<and> parseJoint toNumber e = Some joint"
    by blast
qed

theorem parseUrdf_skips_witness:
  "lacksRequired namelessJoint \<and>
   jointStep someNumber ([], {}) namelessJoint = ([], {}) \<and>
   getElementsByTagName demoRobot (utf16 ''joint'') = [firstJoint, namelessJoint, secondJoint] \<and>
   parseJoints someNumber [firstJoint, namelessJoint, secondJoint]
     = parseJoints someNumber [firstJoint, secondJoint] \<and>
   map urdf_name (allJoints (fst (parseJoints someNumber [firstJoint, namelessJoint, secondJoint])))
     = [(utf16 ''j1''), (utf16 ''j2'')]"
proof -
  have a: "lacksRequired namelessJoint" by code_simp
  have b: "\<not> lacksRequired firstJoint" by code_simp
  have c: "\<not> lacksRequired secondJoint" by code_simp
  have g: "getElementsByTagName demoRobot (utf16 ''joint'') = [firstJoint, namelessJoint, secondJoint]"
    by code_simp
  have n: "map urdf_name (allJoints (fst (parseJoints someNumber [firstJoint, namelessJoint, secondJoint])))
     = [(utf16 ''j1''), (utf16 ''j2'')]"
    by code_simp
  note t = parseUrdf_skips_incomplete_joints
    [of namelessJoint someNumber "([], {})" "[firstJoint, namelessJoint, secondJoint]"]
  have "jointStep someNumber ([], {}) namelessJoint = ([], {})" using t a by blast
  moreover have "parseJoints someNumber [firstJoint, namelessJoint, secondJoint]
     = parseJoints someNumber [firstJoint, secondJoint]"
    using t a b c by simp
  ultimately show ?thesis using a g n by blast
qed

lemma find_SomeD: "find P xs = Some x \<Longrightarrow> x \<in> set xs \<and> P x"
  by (induction xs) (auto split: if_splits)

lemma parseUrdf_unfold:
  assumes "document_querySelector xml (utf16 ''parsererror'') = None"
    and "document_querySelector xml (utf16 ''robot'') = Some r"
  shows "parseUrdf N xml =
     (case find (\<lambda>n. n \<notin> child ` set (parsedJoints N r)) (declaredLinks N r) of
        None \<Rightarrow> Inl NoRootLink
      | Some found \<Rightarrow>
          Inr \<lparr>rootLink = found, links = parseLinks N r,
               jointsByParent = fst (parseJoints N (getElementsByTagName r (utf16 ''joint'')))\<rparr>)"
proof -
  have "found \<noteq> []" if "find (\<lambda>n. n \<notin> child ` set (parsedJoints N r)) (declaredLinks N r) = Some found"
    for found
    using find_SomeD [OF that] declaredLinks_nonempty [of N r] by auto
  then show ?thesis
    using assms
    by (auto simp: parseUrdf_def Let_def parsedJoints_def declaredLinks_def
        parseJoints_children [symmetric] split: option.splits)
qed

text \<open>
  \<^bold>\<open>C5.\<close> For a document that parses and has a \<^verbatim>\<open>robot\<close> element: a root link that is
  selected is a declared link that is the child link of no joint (of those the parser keeps);
  parsing fails for want of a root exactly when every declared link is the child link of
  some joint; and when exactly one declared link \<open>Z\<close> is the child of no joint, parsing
  succeeds with \<open>Z\<close> as root.
\<close>

theorem parseUrdf_root_link:
  assumes "document_querySelector xml (utf16 ''parsererror'') = None"
    and "document_querySelector xml (utf16 ''robot'') = Some robotElement"
  shows "(\<forall>urdf. parseUrdf toNumber xml = Inr urdf \<longrightarrow>
            rootLink urdf \<in> set (declaredLinks toNumber robotElement) \<and>
            rootLink urdf \<notin> child ` set (parsedJoints toNumber robotElement) \<and>
            rootLink urdf \<in> set (Map_keys (links urdf)) \<and>
            rootLink urdf \<notin> child ` set (allJoints (jointsByParent urdf))) \<and>
         (parseUrdf toNumber xml = Inl NoRootLink \<longleftrightarrow>
            set (declaredLinks toNumber robotElement)
              \<subseteq> child ` set (parsedJoints toNumber robotElement)) \<and>
         (\<forall>Z. Z \<in> set (declaredLinks toNumber robotElement) \<and>
              Z \<notin> child ` set (parsedJoints toNumber robotElement) \<and>
              (\<forall>other \<in> set (declaredLinks toNumber robotElement).
                 other \<noteq> Z \<longrightarrow> other \<in> child ` set (parsedJoints toNumber robotElement))
              \<longrightarrow> (\<exists>urdf. parseUrdf toNumber xml = Inr urdf \<and> rootLink urdf = Z))"
proof -
  let ?P = "\<lambda>n. n \<notin> child ` set (parsedJoints toNumber robotElement)"
  let ?ls = "declaredLinks toNumber robotElement"
  note u = parseUrdf_unfold [OF assms, of toNumber]
  have a: "\<forall>urdf. parseUrdf toNumber xml = Inr urdf \<longrightarrow>
            rootLink urdf \<in> set ?ls \<and> ?P (rootLink urdf) \<and>
            rootLink urdf \<in> set (Map_keys (links urdf)) \<and>
            rootLink urdf \<notin> child ` set (allJoints (jointsByParent urdf))"
    unfolding u
    by (auto simp: declaredLinks_def parsedJoints_def dest!: find_SomeD split: option.splits)
  have b: "parseUrdf toNumber xml = Inl NoRootLink \<longleftrightarrow> set ?ls \<subseteq> child ` set (parsedJoints toNumber robotElement)"
    unfolding u by (auto simp: find_None_iff dest!: find_SomeD split: option.splits)
  have c: "\<exists>urdf. parseUrdf toNumber xml = Inr urdf \<and> rootLink urdf = Z"
    if z: "Z \<in> set ?ls" "?P Z" "\<forall>other \<in> set ?ls. other \<noteq> Z \<longrightarrow> \<not> ?P other" for Z
  proof (cases "find ?P ?ls")
    case None
    then show ?thesis using z by (auto simp: find_None_iff)
  next
    case (Some found)
    then have "found \<in> set ?ls" "?P found" by (auto dest!: find_SomeD)
    with z have "found = Z" by blast
    then show ?thesis unfolding u using Some by simp
  qed
  show ?thesis using a b c by blast
qed

theorem parseUrdf_root_link_witness:
  "document_querySelector demoRobot (utf16 ''parsererror'') = None \<and>
   document_querySelector demoRobot (utf16 ''robot'') = Some demoRobot \<and>
   declaredLinks someNumber demoRobot = [(utf16 ''base''), (utf16 ''mid''), (utf16 ''tip'')] \<and>
   map child (parsedJoints someNumber demoRobot) = [(utf16 ''mid''), (utf16 ''tip'')] \<and>
   (\<exists>urdf. parseUrdf someNumber demoRobot = Inr urdf \<and> rootLink urdf = (utf16 ''base''))"
proof -
  have a: "document_querySelector demoRobot (utf16 ''parsererror'') = None" by code_simp
  have b: "document_querySelector demoRobot (utf16 ''robot'') = Some demoRobot" by code_simp
  have l: "declaredLinks someNumber demoRobot = [(utf16 ''base''), (utf16 ''mid''), (utf16 ''tip'')]" by code_simp
  have c: "map child (parsedJoints someNumber demoRobot) = [(utf16 ''mid''), (utf16 ''tip'')]" by code_simp
  have s: "child ` set (parsedJoints someNumber demoRobot) = {(utf16 ''mid''), (utf16 ''tip'')}"
  proof -
    have "child ` set (parsedJoints someNumber demoRobot)
        = set (map child (parsedJoints someNumber demoRobot))" by simp
    then show ?thesis unfolding c by auto
  qed
  have "(utf16 ''base'') \<in> set (declaredLinks someNumber demoRobot) \<and>
        (utf16 ''base'') \<notin> child ` set (parsedJoints someNumber demoRobot) \<and>
        (\<forall>other \<in> set (declaredLinks someNumber demoRobot).
           other \<noteq> (utf16 ''base'') \<longrightarrow> other \<in> child ` set (parsedJoints someNumber demoRobot))"
    unfolding s l by simp
  then have "\<exists>urdf. parseUrdf someNumber demoRobot = Inr urdf \<and> rootLink urdf = (utf16 ''base'')"
    using parseUrdf_root_link [OF a b, of someNumber] by blast
  then show ?thesis using a b l c by blast
qed

lemma components_filter:
  "(b \<longrightarrow> cur = []) \<Longrightarrow> filter (\<lambda>p. p \<noteq> []) (splitRuns b cur s) = components cur s"
  by (induction b cur s rule: splitRuns.induct) auto

lemma splitRuns_pieces_nonempty:
  "(b \<longrightarrow> cur = []) \<Longrightarrow>
   (if b then s \<noteq> [] else cur \<noteq> [] \<or> (s \<noteq> [] \<and> \<not> isWhiteSpace (hd s))) \<Longrightarrow>
   (s = [] \<or> \<not> isWhiteSpace (last s)) \<Longrightarrow>
   [] \<notin> set (splitRuns b cur s)"
  by (induction b cur s rule: splitRuns.induct) (auto split: if_splits)

lemma components_all_white:
  "\<forall>c \<in> set w. isWhiteSpace c \<Longrightarrow> components cur w = (if cur = [] then [] else [rev cur])"
  by (induction w arbitrary: cur) auto

lemma components_append_white:
  "\<forall>c \<in> set w. isWhiteSpace c \<Longrightarrow> components cur (s @ w) = components cur s"
  by (induction s arbitrary: cur) (auto simp: components_all_white)

lemma components_dropWhile: "components [] (dropWhile isWhiteSpace s) = components [] s"
  by (induction s) auto

lemma trim_decompose:
  "dropWhile isWhiteSpace s = trim s @ rev (takeWhile isWhiteSpace (rev (dropWhile isWhiteSpace s)))"
proof -
  let ?u = "dropWhile isWhiteSpace s"
  have "trim s @ rev (takeWhile isWhiteSpace (rev ?u))
      = rev (takeWhile isWhiteSpace (rev ?u) @ dropWhile isWhiteSpace (rev ?u))"
    unfolding trim_def rev_append ..
  also have "\<dots> = rev (rev ?u)" by (simp only: takeWhile_dropWhile_id)
  finally show ?thesis by simp
qed

lemma components_trim: "components [] (trim s) = components [] s"
proof -
  let ?w = "rev (takeWhile isWhiteSpace (rev (dropWhile isWhiteSpace s)))"
  have w: "\<forall>c \<in> set ?w. isWhiteSpace c" by (auto dest: set_takeWhileD)
  have "components [] s = components [] (trim s @ ?w)"
    using trim_decompose [of s] components_dropWhile [of s] by simp
  also have "\<dots> = components [] (trim s)" using w by (rule components_append_white)
  finally show ?thesis by simp
qed

lemma trim_last: "trim s \<noteq> [] \<Longrightarrow> \<not> isWhiteSpace (last (trim s))"
proof -
  assume n: "trim s \<noteq> []"
  let ?d = "dropWhile isWhiteSpace (rev (dropWhile isWhiteSpace s))"
  from n have d: "?d \<noteq> []" by (simp add: trim_def)
  then have "\<not> isWhiteSpace (hd ?d)" by (rule hd_dropWhile)
  moreover have "last (trim s) = hd ?d" using d by (simp add: trim_def last_rev)
  ultimately show ?thesis by simp
qed

lemma trim_hd: "trim s \<noteq> [] \<Longrightarrow> \<not> isWhiteSpace (hd (trim s))"
proof -
  assume n: "trim s \<noteq> []"
  let ?u = "dropWhile isWhiteSpace s"
  have "?u \<noteq> []" using n by (cases "?u = []") (simp_all add: trim_def)
  then have "\<not> isWhiteSpace (hd ?u)" by (rule hd_dropWhile)
  moreover have "hd ?u = hd (trim s)"
    using trim_decompose [of s] n by (metis hd_append2)
  ultimately show ?thesis by simp
qed

lemma splitWhiteSpace_trim:
  "splitWhiteSpace (trim s) = (if trim s = [] then [[]] else components [] s)"
proof (cases "trim s = []")
  case True
  then show ?thesis by (simp add: splitWhiteSpace_def)
next
  case False
  have "[] \<notin> set (splitRuns False [] (trim s))"
    using False trim_hd [OF False] trim_last [OF False]
    by (intro splitRuns_pieces_nonempty) auto
  then have "filter (\<lambda>p. p \<noteq> []) (splitRuns False [] (trim s)) = splitRuns False [] (trim s)"
    by (simp add: filter_id_conv) metis
  then show ?thesis
    using False components_filter [of False "[]" "trim s"] components_trim [of s]
    by (simp add: splitWhiteSpace_def)
qed

lemma parseVector_malformed:
  "\<not> wellFormedVector N text \<Longrightarrow> parseVector N (Some text) fallback = fallback"
proof (cases "trim text = []")
  case True
  then show ?thesis by (simp add: parseVector_def splitWhiteSpace_def Let_def)
next
  case False
  assume "\<not> wellFormedVector N text"
  then have "length (components [] text) \<noteq> 3 \<or> list_ex Number_isNaN (map N (components [] text))"
    by (force simp: wellFormedVector_def list_ex_iff Number_isNaN_def)
  then show ?thesis
    using False by (auto simp: parseVector_def splitWhiteSpace_trim Let_def)
qed

lemma parseVector_wellFormed:
  "wellFormedVector N text \<Longrightarrow>
   parseVector N (Some text) fallback =
     (N (components [] text ! 0), N (components [] text ! 1), N (components [] text ! 2))"
proof -
  assume w: "wellFormedVector N text"
  then have l: "length (components [] text) = 3" by (simp add: wellFormedVector_def)
  then have "components [] (trim text) \<noteq> []" by (auto simp: components_trim)
  then have t: "trim text \<noteq> []" by auto
  then have "text \<noteq> []" by (auto simp: trim_def)
  moreover have "\<not> list_ex Number_isNaN (map N (components [] text))"
    using w by (auto simp: wellFormedVector_def list_ex_iff Number_isNaN_def)
  ultimately show ?thesis
    using t l by (simp add: parseVector_def splitWhiteSpace_trim Let_def)
qed

lemma parseVector_default: "malformedOrAbsent N raw \<Longrightarrow> parseVector N raw fallback = fallback"
  by (cases raw) (simp_all add: malformedOrAbsent_def parseVector_malformed, simp add: parseVector_def)

lemma parseOptionalFloat_default: "absentOrNonFinite N raw \<Longrightarrow> parseOptionalFloat N raw = None"
  by (cases raw) (simp_all add: absentOrNonFinite_def parseOptionalFloat_def Let_def)

text \<open>
  \<^bold>\<open>C7.\<close> In a joint that parsing keeps, the axis is \<open>(0, 0, 1)\<close> when the \<^verbatim>\<open>axis\<close> element or
  its \<^verbatim>\<open>xyz\<close> attribute is absent or the attribute is malformed (not three components, or a
  component that is not a number); the origin's translation and rotation are zero when
  the \<^verbatim>\<open>xyz\<close> and \<^verbatim>\<open>rpy\<close> attributes are absent or malformed; and a limit is \<open>None\<close> when its
  attribute is absent or does not convert to a finite number.
\<close>

theorem parseJoint_defaults:
  assumes "parseJoint toNumber jointElement = Some joint"
  shows "(malformedOrAbsent toNumber (attributeOf (querySelector jointElement (utf16 ''axis'')) (utf16 ''xyz''))
            \<longrightarrow> urdf_axis joint = (Finite 0, Finite 0, Finite 1)) \<and>
         (malformedOrAbsent toNumber (attributeOf (querySelector jointElement (utf16 ''origin'')) (utf16 ''xyz''))
            \<longrightarrow> position (origin joint) = (Finite 0, Finite 0, Finite 0)) \<and>
         (malformedOrAbsent toNumber (attributeOf (querySelector jointElement (utf16 ''origin'')) (utf16 ''rpy''))
            \<longrightarrow> rotation (origin joint) = (Finite 0, Finite 0, Finite 0)) \<and>
         (absentOrNonFinite toNumber (attributeOf (querySelector jointElement (utf16 ''limit'')) (utf16 ''lower''))
            \<longrightarrow> urdf_lowerLimit joint = None) \<and>
         (absentOrNonFinite toNumber (attributeOf (querySelector jointElement (utf16 ''limit'')) (utf16 ''upper''))
            \<longrightarrow> urdf_upperLimit joint = None)"
proof -
  from assms have j: "joint =
     \<lparr>urdf_name = the (getAttribute jointElement (utf16 ''name'')),
      urdf_type = (case getAttribute jointElement (utf16 ''type'') of None \<Rightarrow> (utf16 ''fixed'') | Some t \<Rightarrow> t),
      parent = the (attributeOf (querySelector jointElement (utf16 ''parent'')) (utf16 ''link'')),
      child = the (attributeOf (querySelector jointElement (utf16 ''child'')) (utf16 ''link'')),
      urdf_axis = parseVector toNumber (attributeOf (querySelector jointElement (utf16 ''axis'')) (utf16 ''xyz''))
                    (Finite 0, Finite 0, Finite 1),
      origin = parseOrigin toNumber (querySelector jointElement (utf16 ''origin'')),
      urdf_lowerLimit = parseOptionalFloat toNumber
                          (attributeOf (querySelector jointElement (utf16 ''limit'')) (utf16 ''lower'')),
      urdf_upperLimit = parseOptionalFloat toNumber
                          (attributeOf (querySelector jointElement (utf16 ''limit'')) (utf16 ''upper''))\<rparr>"
    by (auto simp: parseJoint_def Let_def split: if_splits)
  show ?thesis
    unfolding j
    by (simp add: parseOrigin_def parseVector_default parseOptionalFloat_default)
qed

theorem parseJoint_defaults_witness:
  "parseJoint someNumber secondJoint \<noteq> None \<and>
   urdf_axis (the (parseJoint someNumber secondJoint)) = (Finite 0, Finite 0, Finite 1) \<and>
   position (origin (the (parseJoint someNumber secondJoint))) = (Finite 0, Finite 0, Finite 0) \<and>
   rotation (origin (the (parseJoint someNumber secondJoint))) = (Finite 0, Finite 0, Finite 0) \<and>
   urdf_lowerLimit (the (parseJoint someNumber secondJoint)) = None \<and>
   urdf_upperLimit (the (parseJoint someNumber secondJoint)) = None \<and>
   urdf_axis (the (parseJoint someNumber firstJoint)) = (Finite 0, Finite 1, Finite 0) \<and>
   position (origin (the (parseJoint someNumber firstJoint))) = (Finite 0, Finite 1, Finite 2) \<and>
   rotation (origin (the (parseJoint someNumber firstJoint))) = (Finite 0, Finite 0, Finite 0)"
proof -
  obtain j where j: "parseJoint someNumber secondJoint = Some j"
    by (cases "parseJoint someNumber secondJoint") (simp_all, code_simp)
  have m1: "malformedOrAbsent someNumber (attributeOf (querySelector secondJoint (utf16 ''axis'')) (utf16 ''xyz''))"
    by code_simp
  have m2: "malformedOrAbsent someNumber (attributeOf (querySelector secondJoint (utf16 ''origin'')) (utf16 ''xyz''))"
    by code_simp
  have m3: "malformedOrAbsent someNumber (attributeOf (querySelector secondJoint (utf16 ''origin'')) (utf16 ''rpy''))"
    by code_simp
  have m4: "absentOrNonFinite someNumber (attributeOf (querySelector secondJoint (utf16 ''limit'')) (utf16 ''lower''))"
    by code_simp
  have m5: "absentOrNonFinite someNumber (attributeOf (querySelector secondJoint (utf16 ''limit'')) (utf16 ''upper''))"
    by code_simp
  obtain k where k: "parseJoint someNumber firstJoint = Some k"
    by (cases "parseJoint someNumber firstJoint") (simp_all, code_simp)
  have m6: "malformedOrAbsent someNumber (attributeOf (querySelector firstJoint (utf16 ''origin'')) (utf16 ''rpy''))"
    by code_simp
  have e: "urdf_axis (the (parseJoint someNumber firstJoint)) = (Finite 0, Finite 1, Finite 0) \<and>
     position (origin (the (parseJoint someNumber firstJoint))) = (Finite 0, Finite 1, Finite 2)"
    by code_simp
  show ?thesis
    using parseJoint_defaults [OF j] parseJoint_defaults [OF k] m1 m2 m3 m4 m5 m6 e j k by simp
qed

section \<open>Properties of the chain resolver\<close>

lemma findPath_Inl:
  "findPath urdf (Inl c) t =
     (if c = t then Some (Some []) else findPath urdf (Inr (childJointsOf urdf c)) t)"
  by (subst findPath.simps) simp

lemma findPath_Nil: "findPath urdf (Inr []) t = Some None"
  by (subst findPath.simps) simp

lemma findPath_Cons:
  "findPath urdf (Inr (j # rest)) t =
     Option.bind (findPath urdf (Inl (child j)) t)
       (\<lambda>p. case p of Some path \<Rightarrow> Some (Some (j # path)) | None \<Rightarrow> findPath urdf (Inr rest) t)"
  by (subst findPath.simps) simp

lemma scan_found:
  "\<forall>b \<in> set before. findPath urdf (Inl (child b)) t = Some None \<Longrightarrow>
   findPath urdf (Inl (child j)) t = Some (Some sub) \<Longrightarrow>
   findPath urdf (Inr (before @ j # after)) t = Some (Some (j # sub))"
  by (induction before) (simp_all add: findPath_Cons)

lemma scan_none:
  "\<forall>j \<in> set js. findPath urdf (Inl (child j)) t = Some None \<Longrightarrow>
   findPath urdf (Inr js) t = Some None"
  by (induction js) (simp_all add: findPath_Cons findPath_Nil)

lemma scan_correct:
  "\<forall>j \<in> set js. searchCorrect urdf (child j) t \<Longrightarrow>
   \<exists>r. findPath urdf (Inr js) t = Some r \<and>
       (r = None \<longleftrightarrow> (\<forall>j \<in> set js. \<not> reaches urdf (child j) t)) \<and>
       (\<forall>p. r = Some p \<longrightarrow> (\<exists>j rest. p = j # rest \<and> j \<in> set js \<and> isJointPath urdf (child j) rest t))"
proof (induction js)
  case Nil
  show ?case by (simp add: findPath_Nil)
next
  case (Cons j js)
  from Cons.prems obtain r where r: "findPath urdf (Inl (child j)) t = Some r"
    "r = None \<longleftrightarrow> \<not> reaches urdf (child j) t" "\<forall>p. r = Some p \<longrightarrow> isJointPath urdf (child j) p t"
    unfolding searchCorrect_def by auto
  show ?case
  proof (cases r)
    case None
    from Cons.IH Cons.prems obtain r' where r': "findPath urdf (Inr js) t = Some r'"
      "r' = None \<longleftrightarrow> (\<forall>j \<in> set js. \<not> reaches urdf (child j) t)"
      "\<forall>p. r' = Some p \<longrightarrow> (\<exists>j rest. p = j # rest \<and> j \<in> set js \<and> isJointPath urdf (child j) rest t)"
      by auto
    have "findPath urdf (Inr (j # js)) t = Some r'"
      using r(1) None r'(1) by (simp add: findPath_Cons)
    then show ?thesis using r(2) None r'(2,3) by auto
  next
    case (Some p)
    have "findPath urdf (Inr (j # js)) t = Some (Some (j # p))"
      using r(1) Some by (simp add: findPath_Cons)
    moreover have "reaches urdf (child j) t" using r(2) Some by simp
    moreover have "isJointPath urdf (child j) p t" using r(3) Some by simp
    ultimately show ?thesis by auto
  qed
qed

lemma reaches_step:
  "l \<noteq> t \<Longrightarrow> reaches urdf l t \<longleftrightarrow> (\<exists>j \<in> set (childJointsOf urdf l). reaches urdf (child j) t)"
proof
  assume "l \<noteq> t" "reaches urdf l t"
  then obtain p where p: "isJointPath urdf l p t" unfolding reaches_def by blast
  with \<open>l \<noteq> t\<close> obtain j rest where "p = j # rest" by (cases p) auto
  with p show "\<exists>j \<in> set (childJointsOf urdf l). reaches urdf (child j) t"
    unfolding reaches_def by auto
next
  assume "\<exists>j \<in> set (childJointsOf urdf l). reaches urdf (child j) t"
  then obtain j rest where "j \<in> set (childJointsOf urdf l)" "isJointPath urdf (child j) rest t"
    unfolding reaches_def by blast
  then have "isJointPath urdf l (j # rest) t" by simp
  then show "reaches urdf l t" unfolding reaches_def by blast
qed

lemma search_correct: "acyclicBy urdf depth \<Longrightarrow> searchCorrect urdf l t"
proof (induction l rule: measure_induct_rule [of depth])
  case (less l)
  show ?case
  proof (cases "l = t")
    case True
    have "isJointPath urdf t [] t" by simp
    then have "reaches urdf t t" unfolding reaches_def by blast
    then show ?thesis using True by (simp add: searchCorrect_def findPath_Inl)
  next
    case False
    have "\<forall>j \<in> set (childJointsOf urdf l). searchCorrect urdf (child j) t"
      using less by (auto simp: acyclicBy_def)
    from scan_correct [OF this] obtain r where
      r: "findPath urdf (Inr (childJointsOf urdf l)) t = Some r"
         "r = None \<longleftrightarrow> (\<forall>j \<in> set (childJointsOf urdf l). \<not> reaches urdf (child j) t)"
         "\<forall>p. r = Some p \<longrightarrow> (\<exists>j rest. p = j # rest \<and> j \<in> set (childJointsOf urdf l) \<and>
               isJointPath urdf (child j) rest t)"
      by blast
    have "findPath urdf (Inl l) t = Some r" using False r(1) by (simp add: findPath_Inl)
    moreover have "r = None \<longleftrightarrow> \<not> reaches urdf l t" using r(2) reaches_step [OF False] by simp
    moreover have "\<forall>p. r = Some p \<longrightarrow> isJointPath urdf l p t" using r(3) by auto
    ultimately show ?thesis unfolding searchCorrect_def by blast
  qed
qed

text \<open>
  \<^bold>\<open>C4.\<close> \<^verbatim>\<open>findJointPathToLink\<close> returns the empty path when the current link is the target.
  Otherwise, when the searches from the child links of the first child joints return no path
  and the search from the next one returns a path, it returns that joint followed by that
  path; and when the search from every child link returns no path, it returns no path. On a
  structure without a cycle of joints, as every tree is, the search returns for every pair
  of links; it returns no path exactly when the target cannot be reached from the current
  link, and a path it returns leads from the current link to the target. The result is a
  function of the structure and the two names: the code reads its arguments and writes
  nothing. (On a cycle the search never returns, though the target cannot be reached.)
\<close>

theorem findJointPathToLink_search:
  "findJointPathToLink urdf targetLink targetLink = Some (Some []) \<and>
   (currentLink \<noteq> targetLink \<and> childJointsOf urdf currentLink = before @ joint # after \<and>
    (\<forall>b \<in> set before. findJointPathToLink urdf (child b) targetLink = Some None) \<and>
    findJointPathToLink urdf (child joint) targetLink = Some (Some subPath)
      \<longrightarrow> findJointPathToLink urdf currentLink targetLink = Some (Some (joint # subPath))) \<and>
   (currentLink \<noteq> targetLink \<and>
    (\<forall>j \<in> set (childJointsOf urdf currentLink).
       findJointPathToLink urdf (child j) targetLink = Some None)
      \<longrightarrow> findJointPathToLink urdf currentLink targetLink = Some None) \<and>
   (acyclicBy urdf depth \<longrightarrow>
      (\<exists>result. findJointPathToLink urdf currentLink targetLink = Some result \<and>
         (result = None \<longleftrightarrow> \<not> reaches urdf currentLink targetLink) \<and>
         (\<forall>path. result = Some path \<longrightarrow> isJointPath urdf currentLink path targetLink)))"
proof (intro conjI impI)
  show "findJointPathToLink urdf targetLink targetLink = Some (Some [])"
    by (simp add: findJointPathToLink_def findPath_Inl)
next
  assume h: "currentLink \<noteq> targetLink \<and> childJointsOf urdf currentLink = before @ joint # after \<and>
    (\<forall>b \<in> set before. findJointPathToLink urdf (child b) targetLink = Some None) \<and>
    findJointPathToLink urdf (child joint) targetLink = Some (Some subPath)"
  then have "findPath urdf (Inr (before @ joint # after)) targetLink = Some (Some (joint # subPath))"
    by (intro scan_found) (simp_all add: findJointPathToLink_def)
  then show "findJointPathToLink urdf currentLink targetLink = Some (Some (joint # subPath))"
    using h by (simp add: findJointPathToLink_def findPath_Inl)
next
  assume h: "currentLink \<noteq> targetLink \<and>
    (\<forall>j \<in> set (childJointsOf urdf currentLink).
       findJointPathToLink urdf (child j) targetLink = Some None)"
  then have "findPath urdf (Inr (childJointsOf urdf currentLink)) targetLink = Some None"
    by (intro scan_none) (simp add: findJointPathToLink_def)
  then show "findJointPathToLink urdf currentLink targetLink = Some None"
    using h by (simp add: findJointPathToLink_def findPath_Inl)
next
  assume "acyclicBy urdf depth"
  from search_correct [OF this, of currentLink targetLink]
  show "\<exists>result. findJointPathToLink urdf currentLink targetLink = Some result \<and>
         (result = None \<longleftrightarrow> \<not> reaches urdf currentLink targetLink) \<and>
         (\<forall>path. result = Some path \<longrightarrow> isJointPath urdf currentLink path targetLink)"
    unfolding searchCorrect_def findJointPathToLink_def .
qed

theorem findJointPathToLink_search_witness:
  "acyclicBy demoTree demoDepth \<and>
   findJointPathToLink demoTree (utf16 ''base'') (utf16 ''tip'')
     = Some (Some [plainJoint (utf16 ''j1'') (utf16 ''base'') (utf16 ''mid''), plainJoint (utf16 ''j2'') (utf16 ''mid'') (utf16 ''tip'')]) \<and>
   isJointPath demoTree (utf16 ''base'')
     [plainJoint (utf16 ''j1'') (utf16 ''base'') (utf16 ''mid''), plainJoint (utf16 ''j2'') (utf16 ''mid'') (utf16 ''tip'')] (utf16 ''tip'') \<and>
   reaches demoTree (utf16 ''base'') (utf16 ''tip'') \<and>
   findJointPathToLink demoTree (utf16 ''mid'') (utf16 ''side'') = Some None \<and>
   \<not> reaches demoTree (utf16 ''mid'') (utf16 ''side'')"
proof -
  let ?j0 = "plainJoint (utf16 ''j0'') (utf16 ''base'') (utf16 ''side'')"
  let ?j1 = "plainJoint (utf16 ''j1'') (utf16 ''base'') (utf16 ''mid'')"
  let ?j2 = "plainJoint (utf16 ''j2'') (utf16 ''mid'') (utf16 ''tip'')"
  have ac: "acyclicBy demoTree demoDepth"
    by (auto simp: acyclicBy_def childJointsOf_def Map_get_def demoTree_def demoDepth_def
        plainJoint_def split: if_splits)
  have cb: "childJointsOf demoTree (utf16 ''base'') = [?j0] @ ?j1 # []"
    by (simp add: childJointsOf_def Map_get_def demoTree_def)
  have cm: "childJointsOf demoTree (utf16 ''mid'') = [?j2]"
    by (simp add: childJointsOf_def Map_get_def demoTree_def)
  have ct: "childJointsOf demoTree (utf16 ''tip'') = []" "childJointsOf demoTree (utf16 ''side'') = []"
    by (simp_all add: childJointsOf_def Map_get_def demoTree_def)
  note t = findJointPathToLink_search
  have tt: "findJointPathToLink demoTree (utf16 ''tip'') (utf16 ''tip'') = Some (Some [])"
    using t [of demoTree "(utf16 ''tip'')"] by blast
  have st: "findJointPathToLink demoTree (utf16 ''side'') (utf16 ''tip'') = Some None"
    using t [of demoTree "(utf16 ''tip'')" "(utf16 ''side'')"] ct by simp
  have ts: "findJointPathToLink demoTree (utf16 ''tip'') (utf16 ''side'') = Some None"
    using t [of demoTree "(utf16 ''side'')" "(utf16 ''tip'')"] ct by simp
  have mt: "findJointPathToLink demoTree (utf16 ''mid'') (utf16 ''tip'') = Some (Some [?j2])"
    using t [of demoTree "(utf16 ''tip'')" "(utf16 ''mid'')" "[]" ?j2 "[]" "[]"] cm tt
    by (simp add: plainJoint_def)
  have bt: "findJointPathToLink demoTree (utf16 ''base'') (utf16 ''tip'') = Some (Some [?j1, ?j2])"
    using t [of demoTree "(utf16 ''tip'')" "(utf16 ''base'')" "[?j0]" ?j1 "[]" "[?j2]"] cb st mt
    by (simp add: plainJoint_def)
  have ms: "findJointPathToLink demoTree (utf16 ''mid'') (utf16 ''side'') = Some None"
    using t [of demoTree "(utf16 ''side'')" "(utf16 ''mid'')"] cm ts by (simp add: plainJoint_def)
  have "reaches demoTree (utf16 ''base'') (utf16 ''tip'') \<and> isJointPath demoTree (utf16 ''base'') [?j1, ?j2] (utf16 ''tip'')"
    using t [of demoTree "(utf16 ''tip'')" "(utf16 ''base'')" _ _ _ _ demoDepth] ac bt by auto
  moreover have "\<not> reaches demoTree (utf16 ''mid'') (utf16 ''side'')"
    using t [of demoTree "(utf16 ''side'')" "(utf16 ''mid'')" _ _ _ _ demoDepth] ac ms by auto
  ultimately show ?thesis using ac bt ms by blast
qed

lemma loop_never_returns:
  assumes "findPath urdf place t = Some y"
  shows "\<not> (urdf = loopTree \<and> t = (utf16 ''tip'') \<and> onLoop place)"
proof (rule findPath.raw_induct
    [where P = "\<lambda>urdf place t y. \<not> (urdf = loopTree \<and> t = (utf16 ''tip'') \<and> onLoop place)", OF _ assms],
    goal_cases)
  case (1 f urdf place t y)
  note IH = "1"(1) and eq = "1"(2)
  have cl: "childJointsOf loopTree (utf16 ''left'') = [plainJoint (utf16 ''j1'') (utf16 ''left'') (utf16 ''right'')]"
    by (simp add: childJointsOf_def Map_get_def loopTree_def)
  have cr: "childJointsOf loopTree (utf16 ''right'') = [plainJoint (utf16 ''j2'') (utf16 ''right'') (utf16 ''left'')]"
    by (simp add: childJointsOf_def Map_get_def loopTree_def)
  have nowhere: "f loopTree p (utf16 ''tip'') = Some z \<Longrightarrow> \<not> onLoop p" for p z
    using IH [of loopTree p "(utf16 ''tip'')" z] by simp
  show ?case
  proof
    assume h: "urdf = loopTree \<and> t = (utf16 ''tip'') \<and> onLoop place"
    then consider "place = Inl (utf16 ''left'')" | "place = Inl (utf16 ''right'')"
      | "place = Inr [plainJoint (utf16 ''j1'') (utf16 ''left'') (utf16 ''right'')]"
      | "place = Inr [plainJoint (utf16 ''j2'') (utf16 ''right'') (utf16 ''left'')]"
      unfolding onLoop_def by blast
    then show False
    proof cases
      case 1
      with eq h cl have "f loopTree (Inr [plainJoint (utf16 ''j1'') (utf16 ''left'') (utf16 ''right'')]) (utf16 ''tip'') = Some y"
        by simp
      from nowhere [OF this] show False by (simp add: onLoop_def)
    next
      case 2
      with eq h cr have "f loopTree (Inr [plainJoint (utf16 ''j2'') (utf16 ''right'') (utf16 ''left'')]) (utf16 ''tip'') = Some y"
        by simp
      from nowhere [OF this] show False by (simp add: onLoop_def)
    next
      case 3
      with eq h obtain z where "f loopTree (Inl (utf16 ''right'')) (utf16 ''tip'') = Some z"
        by (auto simp: plainJoint_def bind_eq_Some_conv)
      from nowhere [OF this] show False by (simp add: onLoop_def)
    next
      case 4
      with eq h obtain z where "f loopTree (Inl (utf16 ''left'')) (utf16 ''tip'') = Some z"
        by (auto simp: plainJoint_def bind_eq_Some_conv)
      from nowhere [OF this] show False by (simp add: onLoop_def)
    qed
  qed
qed

lemma loop_unreachable: "l \<in> {(utf16 ''base''), (utf16 ''left''), (utf16 ''right'')} \<Longrightarrow> \<not> isJointPath loopTree l p (utf16 ''tip'')"
proof (induction p arbitrary: l)
  case Nil
  then show ?case by auto
next
  case (Cons j p)
  show ?case
  proof
    assume "isJointPath loopTree l (j # p) (utf16 ''tip'')"
    then have j: "j \<in> set (childJointsOf loopTree l)" and r: "isJointPath loopTree (child j) p (utf16 ''tip'')"
      by simp_all
    from j Cons.prems have "child j \<in> {(utf16 ''base''), (utf16 ''left''), (utf16 ''right'')}"
      by (auto simp: childJointsOf_def Map_get_def loopTree_def plainJoint_def)
    from Cons.IH [OF this] r show False by simp
  qed
qed

theorem findJointPathToLink_search_counterexample:
  "parseUrdf someNumber loopRobot = Inr loopTree \<and>
   \<not> reaches loopTree (utf16 ''base'') (utf16 ''tip'') \<and>
   findJointPathToLink loopTree (utf16 ''base'') (utf16 ''tip'') = None"
proof -
  have p: "parseUrdf someNumber loopRobot = Inr loopTree" by code_simp
  have u: "\<not> reaches loopTree (utf16 ''base'') (utf16 ''tip'')"
    using loop_unreachable [of "(utf16 ''base'')"] by (simp add: reaches_def)
  have "findPath loopTree (Inl (utf16 ''left'')) (utf16 ''tip'') = None"
    using loop_never_returns [of loopTree "Inl (utf16 ''left'')" "(utf16 ''tip'')"]
    by (cases "findPath loopTree (Inl (utf16 ''left'')) (utf16 ''tip'')") (auto simp: onLoop_def)
  then have "findJointPathToLink loopTree (utf16 ''base'') (utf16 ''tip'') = None"
    by (simp add: findJointPathToLink_def loopTree_def childJointsOf_def Map_get_def
        plainJoint_def findPath.simps [of _ "Inl (utf16 ''base'')"] findPath.simps [of _ "Inr [_]"])
  with p u show ?thesis by blast
qed

section \<open>Properties of the solver\<close>

lemma chainRel_refl: "chainRel st st"
  by (simp add: chainRel_def list_all2_conv_all_nth sameLimits_refl)

lemma chainRel_trans: "chainRel a b \<Longrightarrow> chainRel b c \<Longrightarrow> chainRel a c"
  unfolding chainRel_def
  using list_all2_trans [of sameLimits sameLimits sameLimits] sameLimits_trans by blast

lemma chainRel_updateMatrixWorld: "chainRel st (updateMatrixWorld st)"
  by (simp add: chainRel_def updateMatrixWorld_def list_all2_conv_all_nth sameLimits_refl)

lemma sameLimits_list_update: "list_all2 sameLimits cs (cs[i := setJointAngle (cs ! i) a])"
proof (cases "i < length cs")
  case True
  then show ?thesis
    by (simp add: list_all2_conv_all_nth nth_list_update sameLimits_refl sameLimits_set)
next
  case False
  then show ?thesis by (simp add: list_all2_conv_all_nth sameLimits_refl)
qed

lemma chainRel_setChainAngle: "chainRel st (setChainAngle st i a)"
  by (simp add: chainRel_def setChainAngle_def sameLimits_list_update)

lemma fst_jacobianStep:
  "\<exists>a b. fst (jacobianStep R cp we acc i)
     = setChainAngle (updateMatrixWorld (setChainAngle (fst acc) i a)) i b"
  by (simp add: jacobianStep_def Let_def) blast

lemma chainRel_jacobianStep: "chainRel (fst acc) (fst (jacobianStep R cp we acc i))"
proof -
  obtain a b where e: "fst (jacobianStep R cp we acc i)
     = setChainAngle (updateMatrixWorld (setChainAngle (fst acc) i a)) i b"
    using fst_jacobianStep by blast
  show ?thesis
    unfolding e
    by (rule chainRel_trans [OF chainRel_setChainAngle
          chainRel_trans [OF chainRel_updateMatrixWorld chainRel_setChainAngle]])
qed

lemma chainRel_foldl:
  assumes "\<And>acc i. chainRel (fst acc) (fst (f acc i))"
  shows "chainRel (fst acc) (fst (foldl f acc is))"
proof (induction "is" arbitrary: acc)
  case Nil
  show ?case by (simp add: chainRel_refl)
next
  case (Cons i "is")
  show ?case
    using chainRel_trans [OF assms [of acc i] Cons [of "f acc i"]] by simp
qed

lemma fst_updateStep: "\<exists>a. fst (updateStep R ds acc i) = setChainAngle (fst acc) i a"
  by (simp add: updateStep_def Let_def) blast

lemma chainRel_updateStep: "chainRel (fst acc) (fst (updateStep R ds acc i))"
proof -
  obtain a where e: "fst (updateStep R ds acc i) = setChainAngle (fst acc) i a"
    using fst_updateStep by blast
  show ?thesis unfolding e by (rule chainRel_setChainAngle)
qed

lemma chainRel_ikIteration: "chainRel st (exitState (ikIteration R tp tq st))"
proof -
  let ?st = "updateMatrixWorld st"
  have a: "chainRel st ?st" by (rule chainRel_updateMatrixWorld)
  have b: "chainRel ?st (fst (foldl (jacobianStep R cp we) (?st, ds) is))" for cp we ds "is"
    using chainRel_foldl [of "jacobianStep R cp we" "(?st, ds)" "is", OF chainRel_jacobianStep]
    by simp
  have c: "chainRel s (fst (foldl (updateStep R ds) (s, m) is))" for s ds m "is"
    using chainRel_foldl [of "updateStep R ds" "(s, m)" "is", OF chainRel_updateStep]
    by simp
  show ?thesis
    unfolding ikIteration_def Let_def
    by (auto intro: a chainRel_trans [OF a chainRel_trans [OF b c]])
qed

lemma chainRel_finalCheck: "chainRel st (fst (finalCheck R tp tq st))"
  by (simp add: finalCheck_def Let_def chainRel_updateMatrixWorld)

lemma chainRel_ikLoop: "chainRel st (fst (ikLoop R tp tq i st))"
proof (induction R tp tq i st rule: ikLoop.induct)
  case (1 R tp tq i st)
  show ?case
  proof (cases "i < IK_MAX_ITERATIONS")
    case False
    then show ?thesis by (simp add: chainRel_finalCheck)
  next
    case True
    note it = chainRel_ikIteration [of st R tp tq]
    show ?thesis
    proof (cases "ikIteration R tp tq st")
      case (ReturnTrue s)
      then show ?thesis using True it by simp
    next
      case (Break s)
      then show ?thesis using True it chainRel_trans [OF _ chainRel_finalCheck] by simp
    next
      case (Continue s)
      then show ?thesis using True it chainRel_trans [OF _ "1.IH" [OF True Continue]] by simp
    qed
  qed
qed

lemma chainRel_solveIkStep: "chainRel st (fst (solveIkStep R st tp tq))"
  by (simp add: solveIkStep_def chainRel_refl chainRel_ikLoop del: ikLoop.simps)

lemma sameLimits_restore: "list_all2 sameLimits cs (restoreJointAngles cs as)"
  by (induction cs as rule: restoreJointAngles.induct)
     (simp_all add: sameLimits_refl sameLimits_set)

lemma chainRel_restoreChain: "chainRel st (restoreChain st as)"
  by (simp add: chainRel_def restoreChain_def sameLimits_restore)

lemma retryLoop_failure:
  assumes "chainRel st0 st" "\<not> snd (retryLoop R sp (map angle (controlChain st0)) tp tq st scales)"
  shows "map angle (controlChain (fst (retryLoop R sp (map angle (controlChain st0)) tp tq st scales)))
     = map (\<lambda>j. clampJointAngle j (angle j)) (controlChain st0)"
  using assms
proof (induction scales arbitrary: st)
  case Nil
  then show ?case
    by (simp add: updateMatrixWorld_def restoreChain_def restore_after_sameLimits chainRel_def)
next
  case (Cons scale scales)
  let ?st1 = "updateMatrixWorld (restoreChain st (map angle (controlChain st0)))"
  let ?att = "solveIkStep R ?st1
     (Vector3_lerp R (fst sp) tp scale)
     (Quaternion_normalize R (Quaternion_slerp R (snd sp) tq scale))"
  have r: "chainRel st0 (fst ?att)"
    by (rule chainRel_trans [OF Cons.prems(1) chainRel_trans [OF chainRel_restoreChain
          chainRel_trans [OF chainRel_updateMatrixWorld chainRel_solveIkStep]]])
  have f: "\<not> snd ?att" using Cons.prems(2) by (auto simp: Let_def split: if_splits)
  then have "\<not> snd (retryLoop R sp (map angle (controlChain st0)) tp tq (fst ?att) scales)"
    using Cons.prems(2) by (simp add: Let_def)
  from Cons.IH [OF r this] show ?case using f by (simp add: Let_def)
qed

text \<open>
  \<^bold>\<open>C1.\<close> When the retry-wrapped solve reports failure, every joint of the chain
  holds the angle of the snapshot taken at the start of the call, clamped to that joint's
  limits (the rollback writes through \<^verbatim>\<open>setJointAngle\<close>); so joint state is exactly the
  snapshot whenever every angle of the snapshot is unchanged by clamping, as every angle
  stored by \<^verbatim>\<open>setJointAngle\<close> is. This holds for every runtime, target and list of scales.
\<close>

theorem retries_failure_rolls_back:
  "\<not> snd (solveIkToTargetWithRetries R st tp tq retryScales) \<longrightarrow>
     map angle (controlChain (fst (solveIkToTargetWithRetries R st tp tq retryScales)))
       = map (\<lambda>joint. clampJointAngle joint (angle joint)) (controlChain st) \<and>
     ((\<forall>joint \<in> set (controlChain st). angleSettled joint) \<longrightarrow>
        map angle (controlChain (fst (solveIkToTargetWithRetries R st tp tq retryScales)))
          = snapshotJointAngles (controlChain st))"
proof
  let ?st = "updateMatrixWorld st"
  assume f: "\<not> snd (solveIkToTargetWithRetries R st tp tq retryScales)"
  have c: "controlChain ?st = controlChain st" by (simp add: updateMatrixWorld_def)
  have e: "solveIkToTargetWithRetries R st tp tq retryScales
     = retryLoop R (getWorldPose R ?st) (map angle (controlChain st)) tp tq ?st retryScales"
    by (simp add: solveIkToTargetWithRetries_def Let_def snapshotJointAngles_def c)
  have "map angle (controlChain (fst (solveIkToTargetWithRetries R st tp tq retryScales)))
       = map (\<lambda>joint. clampJointAngle joint (angle joint)) (controlChain st)"
    using retryLoop_failure [of st ?st R "getWorldPose R ?st" tp tq retryScales] f
    unfolding e by (simp add: chainRel_updateMatrixWorld)
  then show "map angle (controlChain (fst (solveIkToTargetWithRetries R st tp tq retryScales)))
       = map (\<lambda>joint. clampJointAngle joint (angle joint)) (controlChain st) \<and>
     ((\<forall>joint \<in> set (controlChain st). angleSettled joint) \<longrightarrow>
        map angle (controlChain (fst (solveIkToTargetWithRetries R st tp tq retryScales)))
          = snapshotJointAngles (controlChain st))"
    by (simp add: snapshotJointAngles_def angleSettled_def)
qed

theorem retries_failure_counterexample:
  "\<not> snd (solveIkToTargetWithRetries railRuntime unsettledRobot
            (Finite (- 1), Finite 0, Finite 0) unitQuaternion [Finite 1]) \<and>
   snapshotJointAngles (controlChain unsettledRobot) = [Finite 0] \<and>
   map angle (controlChain (fst (solveIkToTargetWithRetries railRuntime unsettledRobot
            (Finite (- 1), Finite 0, Finite 0) unitQuaternion [Finite 1]))) = [Finite 1]"
  by code_simp

theorem retries_failure_witness:
  "\<not> snd (solveIkToTargetWithRetries railRuntime settledRobot
            (Finite (- 1), Finite 0, Finite 0) unitQuaternion [Finite 1, Finite (1 / 2)]) \<and>
   angleSettled settledJoint \<and>
   snapshotJointAngles (controlChain settledRobot) = [Finite 0] \<and>
   map angle (controlChain (fst (solveIkToTargetWithRetries railRuntime settledRobot
            (Finite (- 1), Finite 0, Finite 0) unitQuaternion [Finite 1, Finite (1 / 2)])))
     = [Finite 0]"
proof -
  have f: "\<not> snd (solveIkToTargetWithRetries railRuntime settledRobot
            (Finite (- 1), Finite 0, Finite 0) unitQuaternion [Finite 1, Finite (1 / 2)])"
    by code_simp
  have a: "angleSettled settledJoint"
    by code_simp
  have v: "snapshotJointAngles (controlChain settledRobot) = [Finite 0]"
    by code_simp
  have "\<forall>joint \<in> set (controlChain settledRobot). angleSettled joint"
    using a by (simp add: settledRobot_def)
  then have "map angle (controlChain (fst (solveIkToTargetWithRetries railRuntime settledRobot
            (Finite (- 1), Finite 0, Finite 0) unitQuaternion [Finite 1, Finite (1 / 2)])))
     = snapshotJointAngles (controlChain settledRobot)"
    using retries_failure_rolls_back [of railRuntime settledRobot
        "(Finite (- 1), Finite 0, Finite 0)" unitQuaternion "[Finite 1, Finite (1 / 2)]"] f
    by blast
  then show ?thesis using f a v by simp
qed

text \<open>
  \<^bold>\<open>C10.\<close> Called with an empty control chain, \<^verbatim>\<open>solveIkStep\<close> returns false at once: the state
  it leaves is the state it was given, with no joint angle changed and no world-matrix
  update counted, so no iteration has run.
\<close>

theorem solveIkStep_empty_chain:
  "solveIkStep R (st\<lparr>controlChain := []\<rparr>) targetPosition targetQuaternion
     = (st\<lparr>controlChain := []\<rparr>, False)"
  by (simp add: solveIkStep_def del: ikLoop.simps)

subsection \<open>The loop computes what its description says\<close>










lemma length_chainWhileEstimating [simp]: "length (chainWhileEstimating c k) = length c"
  by (simp add: chainWhileEstimating_def)



lemma chainWhileEstimating_0 [simp]: "chainWhileEstimating c 0 = c"
  by (simp add: chainWhileEstimating_def)









lemma nth_map_angleRestored:
  "i < length c \<Longrightarrow> map angleRestored c ! i = angleRestored (c ! i)"
  by simp












end
